theory Spec2Isabelle
  imports Complex_Main "HOL-Library.Word"
begin

unbundle bit_operations_syntax

section \<open>JavaScript numbers\<close>

text \<open>
  The source is TypeScript; every number is an IEEE double. The embedding reads a number as
  a \<^typ>\<open>real\<close> (rounding of doubles is not modelled), an integer-valued result of
  \<open>Math.floor\<close> as an \<^typ>\<open>int\<close>, and the operands of the bitwise operators as
  \<^typ>\<open>32 word\<close> after the language's \<open>ToInt32\<close> conversion.
\<close>

text \<open>Truncation towards zero, the integer part used by \<open>ToInt32\<close> and by \<open>%\<close>.\<close>

definition trunc :: "real \<Rightarrow> int" where
  "trunc x = (if x < 0 then \<lceil>x\<rceil> else \<lfloor>x\<rfloor>)"

text \<open>The remainder operator \<open>a % b\<close> on numbers: the result has the sign of \<open>a\<close>.\<close>

definition jsmod :: "real \<Rightarrow> real \<Rightarrow> real" where
  "jsmod a b = a - b * real_of_int (trunc (a / b))"

definition toInt32 :: "real \<Rightarrow> 32 word" where
  "toInt32 x = word_of_int (trunc x)"

text \<open>\<open>a ^ b\<close> and \<open>a | b\<close> give a signed 32-bit number, \<open>a >>> n\<close> an unsigned one.\<close>

definition js_xor :: "real \<Rightarrow> real \<Rightarrow> real" where
  "js_xor a b = real_of_int (sint (toInt32 a XOR toInt32 b))"

definition js_or :: "real \<Rightarrow> real \<Rightarrow> real" where
  "js_or a b = real_of_int (sint (toInt32 a OR toInt32 b))"

definition js_ushr :: "real \<Rightarrow> nat \<Rightarrow> real" where
  "js_ushr a n = real_of_int (uint (drop_bit (n mod 32) (toInt32 a)))"

text \<open>\<open>Math.imul\<close>: the low 32 bits of the product, read as signed.\<close>

definition imul :: "real \<Rightarrow> real \<Rightarrow> real" where
  "imul a b = real_of_int (sint (toInt32 a * toInt32 b))"

text \<open>\<open>Math.atan2(y, x)\<close> on finite arguments.\<close>

definition atan2 :: "real \<Rightarrow> real \<Rightarrow> real" where
  "atan2 y x =
     (if 0 < x then arctan (y / x)
      else if x < 0 then (if 0 \<le> y then arctan (y / x) + pi else arctan (y / x) - pi)
      else if 0 < y then pi / 2
      else if y < 0 then - (pi / 2)
      else 0)"

section \<open>Seeded random numbers and noise\<close>

text \<open>
  \<open>mulberry32(a)\<close> returns a closure over the variable \<open>a\<close>. One call of the closure is
  modelled as a function from the captured \<open>a\<close> to the returned sample and the new \<open>a\<close>:
  \<^verbatim>\<open>
      var t = a += 0x6D2B79F5;
      t = Math.imul(t ^ t >>> 15, t | 1);
      t ^= t + Math.imul(t ^ t >>> 7, t | 61);
      return ((t ^ t >>> 14) >>> 0) / 4294967296;
  \<close>
  The captured \<open>a\<close> is never wrapped to 32 bits by the source: it only grows. As a
  double it is exact while its magnitude stays below \<open>2^53\<close> (millions of calls for the
  seeds the application produces); the embedding keeps it exact throughout.
\<close>

definition mulberry32 :: "real \<Rightarrow> real \<times> real" where
  "mulberry32 a =
     (let a1 = a + 0x6D2B79F5;
          t = a1;
          t = imul (js_xor t (js_ushr t 15)) (js_or t 1);
          t = js_xor t (t + imul (js_xor t (js_ushr t 7)) (js_or t 61))
      in (js_ushr (js_xor t (js_ushr t 14)) 0 / 4294967296, a1))"

text \<open>The first \<open>n\<close> samples of a generator created with \<open>mulberry32(a)\<close>.\<close>

primrec rng_samples :: "nat \<Rightarrow> real \<Rightarrow> real list" where
  "rng_samples 0 a = []"
| "rng_samples (Suc n) a = fst (mulberry32 a) # rng_samples n (snd (mulberry32 a))"

definition noise :: "real \<Rightarrow> real \<Rightarrow> real \<Rightarrow> real" where
  "noise x y seed = fst (mulberry32 (seed + x * 1341 + y * 7231)) * 2 - 1"



section \<open>Pixel buffers and the per-pixel transforms\<close>

text \<open>
  \<open>ImageData.data\<close> is a \<open>Uint8ClampedArray\<close> of \<open>width * height * 4\<close> bytes (R, G, B, A per
  pixel, rows first). \<open>createImageData\<close> gives a zeroed buffer. Reading a typed array out
  of range gives \<open>undefined\<close>, which a clamped array stores as 0; writing out of range is
  ignored, as \<open>list_update\<close> is.
\<close>

type_synonym byte = "8 word"
type_synonym pixel = "byte \<times> byte \<times> byte \<times> byte"

definition createImageData :: "nat \<Rightarrow> nat \<Rightarrow> byte list" where
  "createImageData width height = replicate (width * height * 4) 0"

definition rd :: "byte list \<Rightarrow> int \<Rightarrow> byte" where
  "rd d i = (if 0 \<le> i \<and> nat i < length d then d ! nat i else 0)"

text \<open>The four assignments \<open>o[i] = r; o[i+1] = g; o[i+2] = b; o[i+3] = a\<close>.\<close>

definition put4 :: "byte list \<Rightarrow> nat \<Rightarrow> pixel \<Rightarrow> byte list" where
  "put4 out i p =
     (case p of (r, g, b, a) \<Rightarrow> out[i := r, i + 1 := g, i + 2 := b, i + 3 := a])"

text \<open>
  The loop nest shared by the four transforms,
  \<open>for (y = 0; y < height; y++) for (x = 0; x < width; x++) { ... }\<close>,
  whose body writes the pixel at \<open>(y * width + x) * 4\<close> of the output.
\<close>

definition forPixels :: "nat \<Rightarrow> nat \<Rightarrow> (nat \<Rightarrow> nat \<Rightarrow> pixel) \<Rightarrow> byte list \<Rightarrow> byte list" where
  "forPixels width height px out =
     fold (\<lambda>y out. fold (\<lambda>x out. put4 out ((y * width + x) * 4) (px x y)) [0..<width] out)
       [0..<height] out"

text \<open>The pixel of a buffer at column \<open>x\<close>, row \<open>y\<close>.\<close>

definition pixelAt :: "byte list \<Rightarrow> nat \<Rightarrow> nat \<Rightarrow> nat \<Rightarrow> pixel" where
  "pixelAt buf width x y =
     (let i = (y * width + x) * 4 in (buf ! i, buf ! (i + 1), buf ! (i + 2), buf ! (i + 3)))"

definition alpha :: "pixel \<Rightarrow> byte" where
  "alpha p = (case p of (r, g, b, a) \<Rightarrow> a)"

subsection \<open>Wave: \<open>renderLiquidWave\<close>\<close>

text \<open>
  \<open>getIdx\<close> of \<open>renderLiquidWave\<close>, on the floored coordinates it is called with:
  \<^verbatim>\<open>
  if(xx<0) xx=-xx; if(xx>=width) xx=width-(xx%width)-1;
  if(yy<0) yy=-yy; if(yy>=height) yy=height-(yy%height)-1;
  return (Math.floor(yy)*width+Math.floor(xx))*4;
  \<close>
  Both operands of \<open>%\<close> are non-negative where it is evaluated, so it is \<open>mod\<close>; the
  divisor is positive there, since the loop body runs only when \<open>width\<close> and \<open>height\<close> are.
\<close>

definition reflect :: "int \<Rightarrow> int \<Rightarrow> int" where
  "reflect n v =
     (let v = (if v < 0 then - v else v);
          v = (if v \<ge> n then n - (v mod n) - 1 else v)
      in v)"

definition getIdx :: "int \<Rightarrow> int \<Rightarrow> int \<Rightarrow> int \<Rightarrow> int" where
  "getIdx width height xx yy = (reflect height yy * width + reflect width xx) * 4"

text \<open>The three source indices read for the destination pixel \<open>(x, y)\<close>: R, G and B.\<close>

definition waveIdx ::
  "nat \<Rightarrow> nat \<Rightarrow> real \<Rightarrow> real \<Rightarrow> real \<Rightarrow> nat \<Rightarrow> nat \<Rightarrow> int \<times> int \<times> int" where
  "waveIdx width height distortion scale seed x y =
     (let ampX = (distortion / 100) * 80; ampY = (distortion / 100) * 40;
          freqX = 0.005 + (scale / 100) * 0.03; freqY = 0.005 + (scale / 100) * 0.05;
          phase = seed * 0.1; split = \<lfloor>(distortion / 100) * 30\<rfloor>;
          xShift = sin (real y * freqX + phase) * ampX;
          yShift = cos (real x * freqY + phase) * ampY;
          sx = real x + xShift; sy = real y + yShift;
          rx = \<lfloor>sx - real_of_int split\<rfloor>; ry = \<lfloor>sy\<rfloor>;
          gx = \<lfloor>sx\<rfloor>; gy = \<lfloor>sy\<rfloor>;
          bx = \<lfloor>sx + real_of_int split\<rfloor>; b_y = \<lfloor>sy\<rfloor>
      in (getIdx (int width) (int height) rx ry,
          getIdx (int width) (int height) gx gy + 1,
          getIdx (int width) (int height) bx b_y + 2))"

definition wavePixel ::
  "byte list \<Rightarrow> nat \<Rightarrow> nat \<Rightarrow> real \<Rightarrow> real \<Rightarrow> real \<Rightarrow> nat \<Rightarrow> nat \<Rightarrow> pixel" where
  "wavePixel d width height distortion scale seed x y =
     (case waveIdx width height distortion scale seed x y of (ir, ig, ib) \<Rightarrow>
        (rd d ir, rd d ig, rd d ib, 255))"

definition renderLiquidWave ::
  "byte list \<Rightarrow> nat \<Rightarrow> nat \<Rightarrow> real \<Rightarrow> real \<Rightarrow> real \<Rightarrow> byte list" where
  "renderLiquidWave d width height distortion scale seed =
     forPixels width height (wavePixel d width height distortion scale seed)
       (createImageData width height)"

subsection \<open>Turbulence and Ripple: \<open>renderFluidDisplacement\<close>, \<open>renderGlassRefraction\<close>\<close>

text \<open>\<open>if(sx<0)sx=0; if(sx>=width)sx=width-1;\<close> and the same for \<open>sy\<close>.\<close>

definition clampCoord :: "int \<Rightarrow> int \<Rightarrow> int" where
  "clampCoord n v =
     (let v = (if v < 0 then 0 else v);
          v = (if v \<ge> n then n - 1 else v)
      in v)"

text \<open>The source index \<open>si = (sy*width+sx)*4\<close> after clamping.\<close>

definition clampIdx :: "int \<Rightarrow> int \<Rightarrow> int \<Rightarrow> int \<Rightarrow> int" where
  "clampIdx width height sx sy = (clampCoord height sy * width + clampCoord width sx) * 4"

definition fluidIdx :: "nat \<Rightarrow> nat \<Rightarrow> real \<Rightarrow> real \<Rightarrow> real \<Rightarrow> nat \<Rightarrow> nat \<Rightarrow> int" where
  "fluidIdx width height distortion scale seed x y =
     (let str = (distortion / 100) * 150; zoom = 0.001 + (scale / 100) * 0.005;
          n1 = noise (real x * zoom) (real y * zoom) seed;
          n2 = noise (real x * zoom + 100) (real y * zoom + 100) seed;
          sx = \<lfloor>real x + n1 * str\<rfloor>; sy = \<lfloor>real y + n2 * str\<rfloor>
      in clampIdx (int width) (int height) sx sy)"

definition fluidPixel ::
  "byte list \<Rightarrow> nat \<Rightarrow> nat \<Rightarrow> real \<Rightarrow> real \<Rightarrow> real \<Rightarrow> nat \<Rightarrow> nat \<Rightarrow> pixel" where
  "fluidPixel d width height distortion scale seed x y =
     (let si = fluidIdx width height distortion scale seed x y
      in (rd d si, rd d (si + 1), rd d (si + 2), 255))"

definition renderFluidDisplacement ::
  "byte list \<Rightarrow> nat \<Rightarrow> nat \<Rightarrow> real \<Rightarrow> real \<Rightarrow> real \<Rightarrow> byte list" where
  "renderFluidDisplacement d width height distortion scale seed =
     forPixels width height (fluidPixel d width height distortion scale seed)
       (createImageData width height)"

definition glassIdx :: "nat \<Rightarrow> nat \<Rightarrow> real \<Rightarrow> real \<Rightarrow> real \<Rightarrow> nat \<Rightarrow> nat \<Rightarrow> int" where
  "glassIdx width height distortion scale seed x y =
     (let str = (distortion / 100) * 50; freq = 0.005 + (scale / 100) * 0.02;
          time = seed * 0.1;
          nX = noise (real x * freq) (real y * freq) time;
          nY = noise (real x * freq + 100) (real y * freq + 100) time;
          sx = \<lfloor>real x + nX * str\<rfloor>; sy = \<lfloor>real y + nY * str\<rfloor>
      in clampIdx (int width) (int height) sx sy)"

definition glassPixel ::
  "byte list \<Rightarrow> nat \<Rightarrow> nat \<Rightarrow> real \<Rightarrow> real \<Rightarrow> real \<Rightarrow> nat \<Rightarrow> nat \<Rightarrow> pixel" where
  "glassPixel d width height distortion scale seed x y =
     (let si = glassIdx width height distortion scale seed x y
      in (rd d si, rd d (si + 1), rd d (si + 2), 255))"

definition renderGlassRefraction ::
  "byte list \<Rightarrow> nat \<Rightarrow> nat \<Rightarrow> real \<Rightarrow> real \<Rightarrow> real \<Rightarrow> byte list" where
  "renderGlassRefraction d width height distortion scale seed =
     forPixels width height (glassPixel d width height distortion scale seed)
       (createImageData width height)"

subsection \<open>Vortex: \<open>renderVortex\<close>\<close>

text \<open>The sampling position \<open>(isx, isy)\<close> of the destination pixel \<open>(x, y)\<close>.\<close>

definition vortexSource :: "nat \<Rightarrow> nat \<Rightarrow> real \<Rightarrow> real \<Rightarrow> nat \<Rightarrow> nat \<Rightarrow> int \<times> int" where
  "vortexSource width height distortion scale x y =
     (let cx = real width / 2; cy = real height / 2;
          radius = real (min width height) / 2;
          strength = (distortion / 100) * 10;
          zoom = 1 - (scale / 100) * 0.5;
          dx = real x - cx; dy = real y - cy;
          dist = sqrt (dx * dx + dy * dy);
          angle = atan2 dy dx;
          r = dist * zoom;
          delta = strength * (1 - min 1 (dist / radius));
          angle = angle + delta;
          sx = cx + cos angle * r;
          sy = cy + sin angle * r
      in (\<lfloor>sx\<rfloor>, \<lfloor>sy\<rfloor>))"

definition vortexPixel ::
  "byte list \<Rightarrow> nat \<Rightarrow> nat \<Rightarrow> real \<Rightarrow> real \<Rightarrow> nat \<Rightarrow> nat \<Rightarrow> pixel" where
  "vortexPixel d width height distortion scale x y =
     (case vortexSource width height distortion scale x y of (isx, isy) \<Rightarrow>
        if isx \<ge> 0 \<and> isx < int width \<and> isy \<ge> 0 \<and> isy < int height
        then (let sIdx = (isy * int width + isx) * 4
              in (rd d sIdx, rd d (sIdx + 1), rd d (sIdx + 2), 255))
        else (0, 0, 0, 255))"

text \<open>
  The argument \<open>d\<close> is the canvas content before the call and the result the content after
  it: the early \<open>return\<close> leaves the canvas alone, otherwise \<open>putImageData(output, 0, 0)\<close>
  replaces it.
\<close>

definition renderVortex :: "byte list \<Rightarrow> nat \<Rightarrow> nat \<Rightarrow> real \<Rightarrow> real \<Rightarrow> byte list" where
  "renderVortex d width height distortion scale =
     (if distortion < 5 then d
      else forPixels width height (vortexPixel d width height distortion scale)
             (createImageData width height))"

section \<open>Canvas drawing calls\<close>

text \<open>
  The stages that draw through the 2D context (gradients, blend modes, \<open>drawImage\<close>) are
  modelled by the sequence of context calls they issue. What a call does to the pixels is
  the browser's business: it enters as a parameter \<open>host\<close> of \<open>runOps\<close>.
\<close>

datatype blend = SourceOver | HardLight | SoftLight | Multiply | Screen | Difference

datatype color =
    HSL real real real
  | HSLA real real real real
  | RGBA real real real real
  | Named string

datatype paint =
    Flat color
  | LinearGradient real real real real "(real \<times> color) list"
  | RadialGradient real real real real real real "(real \<times> color) list"

datatype canvas_op =
    SetFillStyle paint
  | SetComposite blend
  | FillRect real real real real
  | FillArc real real real real real
  | Snapshot
  | DrawSnapshot real real
  | GrabSlice real real
  | DrawSlice real real
  | Save
  | Restore

definition runOps :: "(canvas_op \<Rightarrow> 'c \<Rightarrow> 'c) \<Rightarrow> canvas_op list \<Rightarrow> 'c \<Rightarrow> 'c" where
  "runOps host ops ctx = fold host ops ctx"

subsection \<open>Base field: \<open>drawPsychedelicField\<close>\<close>

text \<open>
  The four \<open>rng()\<close> calls of each iteration of the blob loop, in the order the source
  makes them (\<open>x\<close>, \<open>y\<close>, \<open>r\<close>, \<open>orbHue\<close>), for \<open>n\<close> iterations from generator state \<open>a\<close>.
\<close>

primrec orbDraws :: "nat \<Rightarrow> real \<Rightarrow> (real \<times> real \<times> real \<times> real) list" where
  "orbDraws 0 a = []"
| "orbDraws (Suc n) a =
     (case mulberry32 a of (u1, a1) \<Rightarrow>
      case mulberry32 a1 of (u2, a2) \<Rightarrow>
      case mulberry32 a2 of (u3, a3) \<Rightarrow>
      case mulberry32 a3 of (u4, a4) \<Rightarrow>
        (u1, u2, u3, u4) # orbDraws n a4)"

text \<open>\<open>const numOrbs = 6 + Math.floor(rng() * 4)\<close>, from the draw \<open>u\<close>.\<close>

definition numOrbs :: "real \<Rightarrow> int" where
  "numOrbs u = 6 + \<lfloor>u * 4\<rfloor>"

text \<open>\<open>const orbHue = (hue + rng() * 180) % 360\<close>, from the draw \<open>u\<close>.\<close>

definition orbHue :: "real \<Rightarrow> real \<Rightarrow> real" where
  "orbHue hue u = jsmod (hue + u * 180) 360"

text \<open>The body of the blob loop: a radial gradient as fill style, then a filled disc.\<close>

definition orbOps :: "nat \<Rightarrow> nat \<Rightarrow> real \<Rightarrow> real \<times> real \<times> real \<times> real \<Rightarrow> canvas_op list" where
  "orbOps width height hue us =
     (case us of (u1, u2, u3, u4) \<Rightarrow>
        let x = u1 * real width;
            y = u2 * real height;
            r = (0.3 + u3 * 0.5) * real (min width height);
            blob = RadialGradient x y 0 x y r
                     [(0, HSLA (orbHue hue u4) 100 60 0.4), (1, Named ''transparent'')]
        in [SetFillStyle blob, FillArc x y r 0 (pi * 2)])"

text \<open>The ramp angle and the blob draws of a seed.\<close>

definition fieldAngle :: "real \<Rightarrow> real" where
  "fieldAngle seed = (fst (mulberry32 seed) * 360) * (pi / 180)"

definition fieldOrbDraws :: "real \<Rightarrow> (real \<times> real \<times> real \<times> real) list" where
  "fieldOrbDraws seed =
     (case mulberry32 seed of (u0, a0) \<Rightarrow>
      case mulberry32 a0 of (u1, a1) \<Rightarrow>
        orbDraws (nat (numOrbs u1)) a1)"

definition fieldRamp :: "nat \<Rightarrow> nat \<Rightarrow> real \<Rightarrow> real \<Rightarrow> real \<Rightarrow> paint" where
  "fieldRamp width height hue spectra angle =
     (let diag = sqrt (real width * real width + real height * real height);
          cx = real width / 2;
          cy = real height / 2;
          x0 = cx - cos angle * diag * 0.5;
          y0 = cy - sin angle * diag * 0.5;
          x1 = cx + cos angle * diag * 0.5;
          y1 = cy + sin angle * diag * 0.5;
          spread = 60 + (spectra / 100) * 120
      in LinearGradient x0 y0 x1 y1
           [(0, HSL hue 100 40),
            (0.3, HSL (jsmod (hue + spread) 360) 100 50),
            (0.7, HSL (jsmod (hue - spread + 360) 360) 100 50),
            (1, HSL hue 100 40)])"

definition drawPsychedelicField :: "nat \<Rightarrow> nat \<Rightarrow> real \<Rightarrow> real \<Rightarrow> real \<Rightarrow> canvas_op list" where
  "drawPsychedelicField width height hue spectra seed =
     [SetFillStyle (fieldRamp width height hue spectra (fieldAngle seed)),
      FillRect 0 0 (real width) (real height),
      SetComposite HardLight]
     @ concat (map (orbOps width height hue) (fieldOrbDraws seed))
     @ [SetComposite SourceOver]"

subsection \<open>Glitch: \<open>renderDataMosh\<close>\<close>

text \<open>
  One displaced slice: its height \<open>h\<close>, row \<open>y\<close>, horizontal offset \<open>xOff\<close>, and whether it
  is first filled black (\<open>rng() > 0.8\<close>) and finally flashed (\<open>rng() > 0.9\<close>).
\<close>

record slice =
  sl_h :: real
  sl_y :: real
  sl_xOff :: real
  sl_black :: bool
  sl_flash :: bool

text \<open>The slice loop: five \<open>rng()\<close> calls per iteration, all of them always made.\<close>

primrec moshSlices :: "nat \<Rightarrow> real \<Rightarrow> nat \<Rightarrow> nat \<Rightarrow> real \<Rightarrow> slice list" where
  "moshSlices 0 a width height distortion = []"
| "moshSlices (Suc n) a width height distortion =
     (case mulberry32 a of (u1, a1) \<Rightarrow>
      case mulberry32 a1 of (u2, a2) \<Rightarrow>
      case mulberry32 a2 of (u3, a3) \<Rightarrow>
      case mulberry32 a3 of (u4, a4) \<Rightarrow>
      case mulberry32 a4 of (u5, a5) \<Rightarrow>
        (let h = 5 + u1 * 100;
             y = u2 * (real height - h);
             xOff = (u3 - 0.5) * (real width * 0.4) * (distortion / 80)
         in \<lparr>sl_h = h, sl_y = y, sl_xOff = xOff, sl_black = (u4 > 0.8), sl_flash = (u5 > 0.9)\<rparr>)
        # moshSlices n a5 width height distortion)"

definition sliceOps :: "nat \<Rightarrow> slice \<Rightarrow> canvas_op list" where
  "sliceOps width s =
     [GrabSlice (sl_y s) (sl_h s)]
     @ (if sl_black s
        then [SetFillStyle (Flat (Named ''black'')), FillRect 0 (sl_y s) (real width) (sl_h s)]
        else [])
     @ [DrawSlice (sl_xOff s) (sl_y s)]
     @ (if sl_flash s
        then [Save, SetComposite Difference, SetFillStyle (Flat (Named ''white'')),
              FillRect 0 (sl_y s) (real width) (sl_h s), Restore]
        else [])"

text \<open>The channel recombination: three shifted copies, masked red, blue and lime.\<close>

definition channelStage :: "nat \<Rightarrow> nat \<Rightarrow> int \<Rightarrow> canvas_op list" where
  "channelStage width height channelShift =
     [Snapshot,
      SetComposite Screen, SetFillStyle (Flat (Named ''black'')),
      FillRect 0 0 (real width) (real height),
      DrawSnapshot (- real_of_int channelShift) 0,
      SetComposite Multiply, SetFillStyle (Flat (Named ''red'')),
      FillRect 0 0 (real width) (real height), SetComposite Screen,
      DrawSnapshot (real_of_int channelShift) 0,
      SetComposite Multiply, SetFillStyle (Flat (Named ''blue'')),
      FillRect 0 0 (real width) (real height), SetComposite Screen,
      DrawSnapshot 0 0,
      SetComposite Multiply, SetFillStyle (Flat (Named ''lime'')),
      FillRect 0 0 (real width) (real height), SetComposite SourceOver]"

definition dataMoshSlices :: "nat \<Rightarrow> nat \<Rightarrow> real \<Rightarrow> real \<Rightarrow> slice list" where
  "dataMoshSlices width height distortion seed =
     (if distortion > 5
      then (let num = 5 + \<lfloor>(distortion / 100) * 30\<rfloor>
            in moshSlices (nat num) seed width height distortion)
      else [])"

definition renderDataMosh :: "nat \<Rightarrow> nat \<Rightarrow> real \<Rightarrow> real \<Rightarrow> canvas_op list" where
  "renderDataMosh width height distortion seed =
     (let channelShift = \<lfloor>(distortion / 100) * 40\<rfloor>
      in (if channelShift > 0 then channelStage width height channelShift else [])
         @ concat (map (sliceOps width) (dataMoshSlices width height distortion seed)))"

text \<open>The \<open>drawImage(sc, xOff, y)\<close> calls: the slice displacements themselves.\<close>

fun isDrawSlice :: "canvas_op \<Rightarrow> bool" where
  "isDrawSlice (DrawSlice x y) = True"
| "isDrawSlice other = False"

subsection \<open>Exposure: the last stage of \<open>renderFluxToCanvas\<close>\<close>

text \<open>
  \<^verbatim>\<open>
  if (exposure !== 50) {
      ctx.fillStyle = exposure > 50 ? `rgba(255,255,255, ${(exposure-50)/150})`
                                    : `rgba(0,0,0, ${(50-exposure)/100})`;
      ctx.globalCompositeOperation = exposure > 50 ? 'soft-light' : 'multiply';
      ctx.fillRect(0,0,width,height);
      ctx.globalCompositeOperation = 'source-over';
  }
  \<close>
\<close>

definition exposureStage :: "nat \<Rightarrow> nat \<Rightarrow> real \<Rightarrow> canvas_op list" where
  "exposureStage width height exposure =
     (if exposure \<noteq> 50
      then [SetFillStyle (Flat (if exposure > 50 then RGBA 255 255 255 ((exposure - 50) / 150)
                                else RGBA 0 0 0 ((50 - exposure) / 100))),
            SetComposite (if exposure > 50 then SoftLight else Multiply),
            FillRect 0 0 (real width) (real height),
            SetComposite SourceOver]
      else [])"

section \<open>The application state and the audio loop\<close>

text \<open>
  The part of the \<open>App\<close> component that the audio synchronisation reads and writes: the
  React state fields (as seen through \<open>stateRef\<close> once a render has committed), and the
  refs. A ref holding an object or \<open>null\<close> is a \<^typ>\<open>bool\<close>: whether it is set. The
  two chroma hues are \<open>hue\<close> and \<open>hueB\<close> in the source; \<open>chromaStyle\<close> is the inline style
  of the chroma layer (its scale, and its filter as hue rotation, saturation and
  brightness, \<open>None\<close> for \<open>'none'\<close>).
\<close>

datatype system_mode = Chroma | Flux

datatype flux_pattern =
  Wave | Interference | Ripple | Prism | Turbulence | Glitch | Kaleido | Pixelate | Scanline
  | Vortex

record app_state =
  systemMode :: system_mode
  chromaHue :: real
  chromaHueB :: real
  fluxHue :: real
  fluxSpectra :: real
  fluxExposure :: real
  fluxDistortion :: real
  fluxIso :: real
  fluxSeed :: real
  fluxPattern :: flux_pattern
  fluxSmudgeActive :: bool
  fluxSmudgeFactor :: real
  activeCanvasDims :: "(real \<times> real) option"
  audioSync :: bool
  hueOffset :: real
  audioContext :: bool
  analyser :: bool
  fluxCanvas :: bool
  chromaRef :: bool
  chromaStyle :: "real \<times> (real \<times> real \<times> real) option"

text \<open>The arguments of one call of \<open>renderFluxToCanvas\<close>.\<close>

record render_call =
  rc_width :: int
  rc_height :: int
  rc_hue :: real
  rc_spectra :: real
  rc_exposure :: real
  rc_distortion :: real
  rc_scale :: real
  rc_seed :: real
  rc_pattern :: flux_pattern
  rc_smudgeActive :: bool
  rc_smudgeFactor :: real

text \<open>
  \<open>toggleAudioSync\<close>. The argument \<open>granted\<close> says whether \<open>getUserMedia\<close> and the set-up of
  the analyser succeed (otherwise the \<open>catch\<close> branch runs). The state returned is the one
  after the queued state updates have been applied.
\<close>

definition toggleAudioSync :: "app_state \<Rightarrow> bool \<Rightarrow> app_state" where
  "toggleAudioSync st granted =
     (if audioSync st then
        (let st = st\<lparr>audioSync := False\<rparr>;
             finalOffset = hueOffset st;
             st = (if systemMode st = Chroma
                   then st\<lparr>chromaHue := jsmod (chromaHue st + finalOffset) 360,
                           chromaHueB := jsmod (chromaHueB st + finalOffset) 360\<rparr>
                   else st\<lparr>fluxHue := jsmod (fluxHue st + finalOffset) 360\<rparr>);
             st = (if audioContext st then st\<lparr>audioContext := False\<rparr> else st);
             st = (if chromaRef st then st\<lparr>chromaStyle := (1, None)\<rparr> else st)
         in st\<lparr>hueOffset := 0\<rparr>)
      else if granted
        then st\<lparr>audioContext := True, analyser := True, audioSync := True\<rparr>
        else st\<lparr>audioSync := False\<rparr>)"

text \<open>\<open>data.slice(a, b).reduce((a,b) => a+b, 0)\<close> on the byte array of the analyser.\<close>

definition sliceSum :: "byte list \<Rightarrow> nat \<Rightarrow> nat \<Rightarrow> real" where
  "sliceSum data a b = real (sum_list (map unat (take (b - a) (drop a data))))"

definition bassOf :: "byte list \<Rightarrow> real" where
  "bassOf data = (sliceSum data 0 10 / 10) / 255"

definition midOf :: "byte list \<Rightarrow> real" where
  "midOf data = (sliceSum data 20 100 / 80) / 255"

definition highOf :: "byte list \<Rightarrow> real" where
  "highOf data = (sliceSum data 100 300 / 200) / 255"

definition volOf :: "byte list \<Rightarrow> real" where
  "volOf data = (bassOf data + midOf data + highOf data) / 3"

text \<open>
  One run of \<open>loop\<close>, the animation-frame callback: \<open>data\<close> is what
  \<open>getByteFrequencyData\<close> delivers in this frame, \<open>dpr\<close> is \<open>window.devicePixelRatio\<close>. The
  result is the state after the frame and the call of \<open>renderFluxToCanvas\<close> it makes, if
  any.
\<close>

definition loop :: "app_state \<Rightarrow> byte list \<Rightarrow> real \<Rightarrow> app_state \<times> render_call option" where
  "loop state data dpr =
     (let listening = (audioSync state \<and> analyser state);
          bass = (if listening then bassOf data else 0);
          mid = (if listening then midOf data else 0);
          high = (if listening then highOf data else 0);
          vol = (if listening then volOf data else 0);
          st = (if listening \<and> vol > 0.02
                then state\<lparr>hueOffset := hueOffset state + vol * 4\<rparr> else state);
          call =
            (if systemMode state = Flux \<and> fluxCanvas state \<and> audioSync state
             then (case activeCanvasDims state of
                     None \<Rightarrow> None
                   | Some (w, h) \<Rightarrow>
                       (let dpr = (if dpr = 0 then 1 else dpr);
                            dynDistortion = fluxDistortion state + (bass * 80);
                            dynIso = fluxIso state + (bass * 50);
                            dynSpectra = fluxSpectra state + (high * 100);
                            accumulatedHue = jsmod (fluxHue state + hueOffset st) 360
                        in Some \<lparr>rc_width = \<lfloor>w * dpr\<rfloor>, rc_height = \<lfloor>h * dpr\<rfloor>,
                                 rc_hue = accumulatedHue, rc_spectra = dynSpectra,
                                 rc_exposure = fluxExposure state,
                                 rc_distortion = dynDistortion, rc_scale = dynIso,
                                 rc_seed = fluxSeed state, rc_pattern = fluxPattern state,
                                 rc_smudgeActive = fluxSmudgeActive state,
                                 rc_smudgeFactor = fluxSmudgeFactor state\<rparr>))
             else None);
          st = (if systemMode state = Chroma \<and> chromaRef state \<and> audioSync state
                then st\<lparr>chromaStyle :=
                          (1 + (bass * 0.25),
                           Some (jsmod (hueOffset st) 360, 100 + (mid * 150), 1 + high * 0.5))\<rparr>
                else st)
      in (st, call))"

text \<open>\<open>renderStaticFlux\<close>, run after a state change while audio sync is off.\<close>

definition renderStaticFlux :: "app_state \<Rightarrow> real \<Rightarrow> render_call option" where
  "renderStaticFlux state dpr =
     (if systemMode state = Flux \<and> fluxCanvas state
      then (case activeCanvasDims state of
              None \<Rightarrow> None
            | Some (w, h) \<Rightarrow>
                (let dpr = (if dpr = 0 then 1 else dpr)
                 in Some \<lparr>rc_width = \<lfloor>w * dpr\<rfloor>, rc_height = \<lfloor>h * dpr\<rfloor>,
                          rc_hue = fluxHue state, rc_spectra = fluxSpectra state,
                          rc_exposure = fluxExposure state,
                          rc_distortion = fluxDistortion state, rc_scale = fluxIso state,
                          rc_seed = fluxSeed state, rc_pattern = fluxPattern state,
                          rc_smudgeActive = fluxSmudgeActive state,
                          rc_smudgeFactor = fluxSmudgeFactor state\<rparr>))
      else None)"

text \<open>A listening session: the frames run one after the other.\<close>

definition runFrames :: "app_state \<Rightarrow> (byte list \<times> real) list \<Rightarrow> app_state" where
  "runFrames st frames = fold (\<lambda>(data, dpr) st. fst (loop st data dpr)) frames st"

text \<open>The state on start-up: the \<open>useState\<close> and \<open>useRef\<close> initial values.\<close>

definition initialState :: app_state where
  "initialState =
     \<lparr>systemMode = Chroma, chromaHue = 280, chromaHueB = 240,
      fluxHue = 210, fluxSpectra = 50, fluxExposure = 50, fluxDistortion = 30,
      fluxIso = 60, fluxSeed = 12345, fluxPattern = Wave,
      fluxSmudgeActive = False, fluxSmudgeFactor = 50,
      activeCanvasDims = None, audioSync = False, hueOffset = 0,
      audioContext = False, analyser = False, fluxCanvas = False, chromaRef = False,
      chromaStyle = (1, None)\<rparr>"

section \<open>Theorems\<close>

subsection \<open>The generator against its specification\<close>

lemma trunc_of_int: "trunc (real_of_int k) = k"
  by (simp add: trunc_def)

lemma toInt32_of_int: "toInt32 (real_of_int k) = word_of_int k"
  by (simp add: toInt32_def trunc_of_int)

lemma toInt32_sint: "toInt32 (real_of_int (sint (w :: 32 word))) = w"
  by (simp only: toInt32_of_int) simp

lemma toInt32_uint: "toInt32 (real_of_int (uint (w :: 32 word))) = w"
  by (simp only: toInt32_of_int) simp

lemma toInt32_add_sint:
  "toInt32 (real_of_int (sint (v :: 32 word)) + real_of_int (sint (w :: 32 word))) = v + w"
proof -
  have "real_of_int (sint v) + real_of_int (sint w) = real_of_int (sint v + sint w)"
    by simp
  then show ?thesis
    by (simp only: toInt32_of_int) simp
qed


lemma toInt32_one: "toInt32 1 = 1"
  by (simp add: toInt32_def trunc_def)

lemma toInt32_numeral: "toInt32 (numeral n) = numeral n"
  by (simp add: toInt32_def trunc_def)

lemma toInt32_js_xor: "toInt32 (js_xor a b) = toInt32 a XOR toInt32 b"
  unfolding js_xor_def by (rule toInt32_sint)

lemma toInt32_js_or: "toInt32 (js_or a b) = toInt32 a OR toInt32 b"
  unfolding js_or_def by (rule toInt32_sint)

lemma toInt32_js_ushr: "toInt32 (js_ushr a n) = drop_bit (n mod 32) (toInt32 a)"
  unfolding js_ushr_def by (rule toInt32_uint)

lemma toInt32_imul: "toInt32 (imul a b) = toInt32 a * toInt32 b"
  unfolding imul_def by (rule toInt32_sint)

lemma toInt32_imul_sum:
  "toInt32 (imul a b + imul c d) = toInt32 (imul a b) + toInt32 (imul c d)"
  unfolding imul_def by (simp only: toInt32_add_sint toInt32_sint)

lemma mulberry32_sample:
  "fst (mulberry32 a) =
     (let s1 = toInt32 (a + 0x6D2B79F5);
          t = (s1 XOR drop_bit 15 s1) * (s1 OR 1);
          t = t XOR (t + (t XOR drop_bit 7 t) * (t OR 61))
      in real (unat (t XOR drop_bit 14 t)) / 2 ^ 32)"
proof -
  have fin: "js_ushr x 0 / 4294967296 = real (unat (toInt32 x)) / 2 ^ 32" for x
    by (simp add: js_ushr_def)
  show ?thesis
    unfolding mulberry32_def Let_def fst_conv fin
    by (simp only: toInt32_js_xor toInt32_js_or toInt32_js_ushr toInt32_imul toInt32_imul_sum
        toInt32_one toInt32_numeral) simp
qed




lemma unit_interval_32: "0 \<le> real (unat (w :: 32 word)) / 2 ^ 32 \<and> real (unat w) / 2 ^ 32 < 1"
proof -
  have "unat w < 2 ^ 32"
    using unsigned_less [of w, where ?'a = nat] by simp
  then have "real (unat w) < real (2 ^ 32)"
    by (simp only: of_nat_less_iff)
  then have hi: "real (unat w) / 2 ^ 32 < 1"
    by (simp del: of_nat_unat)
  have "0 \<le> real (unat w)"
    by (rule of_nat_0_le_iff)
  then have "0 \<le> real (unat w) / 2 ^ 32"
    by (rule divide_nonneg_nonneg) simp
  with hi show ?thesis by blast
qed

lemma mulberry32_range: "0 \<le> fst (mulberry32 a) \<and> fst (mulberry32 a) < 1"
  unfolding mulberry32_sample Let_def by (rule unit_interval_32)




subsection \<open>The pixel loop\<close>

lemma length_put4: "length (put4 out i p) = length out"
  by (cases p) (simp add: put4_def)

lemma nth_put4_other: "j < i \<or> i + 4 \<le> j \<Longrightarrow> put4 out i p ! j = out ! j"
  by (cases p) (auto simp add: put4_def)

lemma nth_put4_here:
  "i + 3 < length out \<Longrightarrow>
   (put4 out i p ! i, put4 out i p ! (i + 1), put4 out i p ! (i + 2), put4 out i p ! (i + 3)) = p"
  by (cases p) (simp add: put4_def)

lemma row_Suc:
  "fold (\<lambda>x out. put4 out ((base + x) * 4) (f x)) [0..<Suc m] out =
     put4 (fold (\<lambda>x out. put4 out ((base + x) * 4) (f x)) [0..<m] out) ((base + m) * 4) (f m)"
  by simp

lemma row_length:
  "length (fold (\<lambda>x out. put4 out ((base + x) * 4) (f x)) [0..<m] out) = length out"
  by (induction m) (simp, simp only: row_Suc length_put4)

lemma row_other:
  "j < base * 4 \<or> (base + m) * 4 \<le> j \<Longrightarrow>
   fold (\<lambda>x out. put4 out ((base + x) * 4) (f x)) [0..<m] out ! j = out ! j"
proof (induction m)
  case 0
  show ?case by simp
next
  case (Suc m)
  from Suc.prems have a: "j < base * 4 \<or> (base + m) * 4 \<le> j" by auto
  from Suc.prems have b: "j < (base + m) * 4 \<or> (base + m) * 4 + 4 \<le> j" by auto
  show ?case
    by (simp only: row_Suc nth_put4_other [OF b] Suc.IH [OF a])
qed

lemma row_pixel:
  assumes "x < m" and "(base + m) * 4 \<le> length out"
  shows "(let R = fold (\<lambda>x out. put4 out ((base + x) * 4) (f x)) [0..<m] out;
              i = (base + x) * 4
          in (R ! i, R ! (i + 1), R ! (i + 2), R ! (i + 3))) = f x"
  using assms
proof (induction m)
  case 0
  then show ?case by simp
next
  case (Suc m)
  let ?R = "fold (\<lambda>x out. put4 out ((base + x) * 4) (f x)) [0..<m] out"
  have len: "length ?R = length out" by (rule row_length)
  show ?case
  proof (cases "x = m")
    case True
    have "(base + m) * 4 + 3 < length ?R" using Suc.prems(2) len by simp
    from nth_put4_here [OF this, of "f m"] True show ?thesis
      by (simp only: row_Suc Let_def)
  next
    case False
    with Suc.prems have xm: "x < m" and sz: "(base + m) * 4 \<le> length out" by auto
    have o: "\<And>c. c < 4 \<Longrightarrow> (base + x) * 4 + c < (base + m) * 4 \<or> (base + m) * 4 + 4 \<le> (base + x) * 4 + c"
      using xm by auto
    have "\<And>c. c < 4 \<Longrightarrow> put4 ?R ((base + m) * 4) (f m) ! ((base + x) * 4 + c) = ?R ! ((base + x) * 4 + c)"
      by (rule nth_put4_other) (rule o)
    from this [of 0] this [of 1] this [of 2] this [of 3] Suc.IH [OF xm sz] show ?thesis
      by (simp only: row_Suc Let_def) simp
  qed
qed

lemma forPixels_Suc:
  "forPixels w (Suc n) px out =
     fold (\<lambda>x out. put4 out ((n * w + x) * 4) (px x n)) [0..<w] (forPixels w n px out)"
  by (simp add: forPixels_def)

lemma forPixels_length: "length (forPixels w n px out) = length out"
  by (induction n) (simp add: forPixels_def, simp only: forPixels_Suc row_length)

lemma forPixels_pixel:
  "x < w \<Longrightarrow> y < n \<Longrightarrow> w * n * 4 \<le> length out \<Longrightarrow>
   pixelAt (forPixels w n px out) w x y = px x y"
proof (induction n)
  case 0
  then show ?case by simp
next
  case (Suc n)
  let ?P = "forPixels w n px out"
  have len: "length ?P = length out" by (rule forPixels_length)
  show ?case
  proof (cases "y = n")
    case True
    have "(n * w + w) * 4 \<le> length ?P" using Suc.prems(3) len by (simp add: algebra_simps)
    from row_pixel [OF Suc.prems(1) this, of "\<lambda>x. px x n"] True show ?thesis
      by (simp add: forPixels_Suc pixelAt_def Let_def)
  next
    case False
    with Suc.prems have yn: "y < n" by simp
    have sz: "w * n * 4 \<le> length out" using Suc.prems(3) by (simp add: algebra_simps)
    have "Suc y * w \<le> n * w" using yn by (intro mult_le_mono1) simp
    then have "y * w + x < n * w" using Suc.prems(1) by simp
    then have o: "\<And>c. c < 4 \<Longrightarrow> (y * w + x) * 4 + c < n * w * 4 \<or> (n * w + w) * 4 \<le> (y * w + x) * 4 + c"
      by auto
    have "\<And>c. c < 4 \<Longrightarrow>
        fold (\<lambda>x out. put4 out ((n * w + x) * 4) (px x n)) [0..<w] ?P ! ((y * w + x) * 4 + c)
        = ?P ! ((y * w + x) * 4 + c)"
      by (rule row_other) (rule o)
    from this [of 0] this [of 1] this [of 2] this [of 3] Suc.IH [OF Suc.prems(1) yn sz]
    show ?thesis
      by (simp add: forPixels_Suc pixelAt_def Let_def)
  qed
qed

lemma length_createImageData: "length (createImageData w h) = w * h * 4"
  by (simp add: createImageData_def)

subsection \<open>Opacity of the per-pixel transforms\<close>

lemma alpha_wavePixel: "alpha (wavePixel d w h ds sc sd x y) = 255"
  by (simp add: alpha_def wavePixel_def split: prod.split)

lemma alpha_fluidPixel: "alpha (fluidPixel d w h ds sc sd x y) = 255"
  by (simp add: alpha_def fluidPixel_def Let_def)

lemma alpha_glassPixel: "alpha (glassPixel d w h ds sc sd x y) = 255"
  by (simp add: alpha_def glassPixel_def Let_def)

lemma alpha_vortexPixel: "alpha (vortexPixel d w h ds sc x y) = 255"
  by (simp add: alpha_def vortexPixel_def Let_def split: prod.split)

lemma rendered_pixel:
  "x < w \<Longrightarrow> y < h \<Longrightarrow> pixelAt (forPixels w h px (createImageData w h)) w x y = px x y"
  by (rule forPixels_pixel) (simp_all add: length_createImageData)

lemma rendered_length: "length (forPixels w h px (createImageData w h)) = w * h * 4"
  by (simp only: forPixels_length length_createImageData)

lemma alpha_byte:
  assumes "i < w * h"
  shows "buf ! (i * 4 + 3) = alpha (pixelAt buf w (i mod w) (i div w))"
proof -
  have "i div w * w + i mod w = i" by simp
  then show ?thesis
    by (simp only: pixelAt_def Let_def alpha_def prod.case)
qed

lemma pixel_coords: "(i::nat) < w * h \<Longrightarrow> i mod w < w \<and> i div w < h"
proof -
  assume a: "i < w * h"
  then have "0 < w" by (cases w) auto
  moreover have "i div w < h" using a by (simp add: less_mult_imp_div_less mult.commute)
  ultimately show ?thesis by simp
qed

text \<open>
  Claim C10. Wave, Turbulence, Ripple, and Vortex when it is not skipped, write alpha 255 to
  every pixel of the output, whatever the input buffer holds: the output has
  \<open>width * height\<close> pixels and the alpha byte of each of them is 255.
\<close>

theorem transforms_write_opaque:
  assumes "i < width * height"
  shows "renderLiquidWave d width height distortion scale seed ! (i * 4 + 3) = 255
    \<and> renderFluidDisplacement d width height distortion scale seed ! (i * 4 + 3) = 255
    \<and> renderGlassRefraction d width height distortion scale seed ! (i * 4 + 3) = 255
    \<and> (5 \<le> distortion \<longrightarrow> renderVortex d width height distortion scale ! (i * 4 + 3) = 255)
    \<and> length (renderLiquidWave d width height distortion scale seed) = width * height * 4
    \<and> length (renderFluidDisplacement d width height distortion scale seed) = width * height * 4
    \<and> length (renderGlassRefraction d width height distortion scale seed) = width * height * 4
    \<and> (5 \<le> distortion \<longrightarrow>
          length (renderVortex d width height distortion scale) = width * height * 4)"
proof -
  from pixel_coords [OF assms] have x: "i mod width < width" and y: "i div width < height"
    by simp_all
  have a: "forPixels width height px (createImageData width height) ! (i * 4 + 3)
      = alpha (px (i mod width) (i div width))" for px
    by (simp only: alpha_byte [OF assms] rendered_pixel [OF x y])
  have v: "5 \<le> distortion \<Longrightarrow> renderVortex d width height distortion scale
      = forPixels width height (vortexPixel d width height distortion scale)
          (createImageData width height)"
    by (simp add: renderVortex_def)
  have 1: "renderLiquidWave d width height distortion scale seed ! (i * 4 + 3) = 255"
    by (simp only: renderLiquidWave_def a alpha_wavePixel)
  have 2: "renderFluidDisplacement d width height distortion scale seed ! (i * 4 + 3) = 255"
    by (simp only: renderFluidDisplacement_def a alpha_fluidPixel)
  have 3: "renderGlassRefraction d width height distortion scale seed ! (i * 4 + 3) = 255"
    by (simp only: renderGlassRefraction_def a alpha_glassPixel)
  have 4: "5 \<le> distortion \<longrightarrow> renderVortex d width height distortion scale ! (i * 4 + 3) = 255"
  proof
    assume "5 \<le> distortion"
    from v [OF this] show "renderVortex d width height distortion scale ! (i * 4 + 3) = 255"
      by (simp only: a alpha_vortexPixel)
  qed
  have 5: "length (renderLiquidWave d width height distortion scale seed) = width * height * 4"
    by (simp only: renderLiquidWave_def rendered_length)
  have 6: "length (renderFluidDisplacement d width height distortion scale seed) = width * height * 4"
    by (simp only: renderFluidDisplacement_def rendered_length)
  have 7: "length (renderGlassRefraction d width height distortion scale seed) = width * height * 4"
    by (simp only: renderGlassRefraction_def rendered_length)
  have 8: "5 \<le> distortion \<longrightarrow>
      length (renderVortex d width height distortion scale) = width * height * 4"
  proof
    assume "5 \<le> distortion"
    from v [OF this] show "length (renderVortex d width height distortion scale) = width * height * 4"
      by (simp only: rendered_length)
  qed
  from 1 2 3 4 5 6 7 8 show ?thesis by blast
qed

theorem transforms_write_opaque_witness:
  "renderLiquidWave [1, 2, 3, 4] 1 1 0 0 0 ! 3 = 255
   \<and> renderFluidDisplacement [1, 2, 3, 4] 1 1 0 0 0 ! 3 = 255
   \<and> renderGlassRefraction [1, 2, 3, 4] 1 1 0 0 0 ! 3 = 255
   \<and> renderVortex [1, 2, 3, 4] 1 1 50 0 ! 3 = 255"
  using transforms_write_opaque [of 0 1 1 "[1, 2, 3, 4]" 0 0 0]
    transforms_write_opaque [of 0 1 1 "[1, 2, 3, 4]" 50 0 0]
  by simp

subsection \<open>Sampling indices of Wave, Turbulence and Ripple\<close>

lemma reflect_eq:
  "reflect n v = (if \<bar>v\<bar> < n then \<bar>v\<bar> else n - 1 - \<bar>v\<bar> mod n)"
  by (simp add: reflect_def Let_def abs_if)

lemma reflect_range: "1 \<le> n \<Longrightarrow> 0 \<le> reflect n v \<and> reflect n v < n"
proof -
  assume n: "1 \<le> n"
  then have "0 \<le> \<bar>v\<bar> mod n" "\<bar>v\<bar> mod n < n"
    by simp_all
  then show ?thesis
    unfolding reflect_eq by auto
qed

lemma clampCoord_eq:
  "clampCoord n v = (if v < 0 then (if 0 \<ge> n then n - 1 else 0) else if v \<ge> n then n - 1 else v)"
  by (simp add: clampCoord_def Let_def)

lemma clampCoord_range: "1 \<le> n \<Longrightarrow> 0 \<le> clampCoord n v \<and> clampCoord n v < n"
  unfolding clampCoord_eq by auto

lemma index_in_buffer:
  fixes a b w h :: int
  assumes "0 \<le> a" "a < h" "0 \<le> b" "b < w"
  shows "0 \<le> (a * w + b) * 4 \<and> (a * w + b) * 4 + 3 < w * h * 4"
proof -
  have "0 \<le> a * w" using assms by simp
  then have lo: "0 \<le> (a * w + b) * 4" using assms by simp
  have "(a + 1) * w \<le> h * w"
    using assms by (intro mult_right_mono) simp_all
  then have "a * w + b < w * h"
    using assms by (simp add: algebra_simps)
  then have "(a * w + b) * 4 + 3 < w * h * 4" by simp
  with lo show ?thesis by simp
qed

lemma getIdx_in_buffer:
  "1 \<le> w \<Longrightarrow> 1 \<le> h \<Longrightarrow> 0 \<le> getIdx w h xx yy \<and> getIdx w h xx yy + 3 < w * h * 4"
  unfolding getIdx_def
  using reflect_range [of h yy] reflect_range [of w xx]
  by (intro index_in_buffer) simp_all

lemma clampIdx_in_buffer:
  "1 \<le> w \<Longrightarrow> 1 \<le> h \<Longrightarrow> 0 \<le> clampIdx w h sx sy \<and> clampIdx w h sx sy + 3 < w * h * 4"
  unfolding clampIdx_def
  using clampCoord_range [of h sy] clampCoord_range [of w sx]
  by (intro index_in_buffer) simp_all

text \<open>
  Claim C6. On a buffer of at least one pixel, every source index computed by Wave
  (through \<open>getIdx\<close>, which mirrors a coordinate back into the buffer), and by Turbulence
  and Ripple (which clamp it to the nearest edge), lies inside the buffer: all bytes read
  are bytes of the input. This holds for every destination pixel, the corners included.
\<close>

theorem sampling_index_in_bounds:
  assumes "1 \<le> width" and "1 \<le> height"
  shows "(case waveIdx width height distortion scale seed x y of (ir, ig, ib) \<Rightarrow>
            0 \<le> ir \<and> ir < int (width * height * 4)
          \<and> 0 \<le> ig \<and> ig < int (width * height * 4)
          \<and> 0 \<le> ib \<and> ib < int (width * height * 4))
    \<and> 0 \<le> fluidIdx width height distortion scale seed x y
    \<and> fluidIdx width height distortion scale seed x y + 2 < int (width * height * 4)
    \<and> 0 \<le> glassIdx width height distortion scale seed x y
    \<and> glassIdx width height distortion scale seed x y + 2 < int (width * height * 4)
    \<and> getIdx (int width) (int height) xx yy
          = (reflect (int height) yy * int width + reflect (int width) xx) * 4
    \<and> reflect (int width) xx
          = (if \<bar>xx\<bar> < int width then \<bar>xx\<bar> else int width - 1 - \<bar>xx\<bar> mod int width)
    \<and> clampIdx (int width) (int height) xx yy
          = (clampCoord (int height) yy * int width + clampCoord (int width) xx) * 4
    \<and> clampCoord (int width) xx = max 0 (min (int width - 1) xx)"
proof -
  have w: "1 \<le> int width" and h: "1 \<le> int height"
    using assms by simp_all
  have sz: "int (width * height * 4) = int width * int height * 4"
    by simp
  let ?N = "int width * int height * 4"
  have G0: "0 \<le> getIdx (int width) (int height) u v" "getIdx (int width) (int height) u v < ?N"
    for u v using getIdx_in_buffer [OF w h, of u v] by linarith+
  have G1: "0 \<le> getIdx (int width) (int height) u v + 1"
    "getIdx (int width) (int height) u v + 1 < ?N"
    for u v using getIdx_in_buffer [OF w h, of u v] by linarith+
  have G2: "0 \<le> getIdx (int width) (int height) u v + 2"
    "getIdx (int width) (int height) u v + 2 < ?N"
    for u v using getIdx_in_buffer [OF w h, of u v] by linarith+
  have C0: "0 \<le> clampIdx (int width) (int height) u v"
    "clampIdx (int width) (int height) u v + 2 < ?N"
    for u v using clampIdx_in_buffer [OF w h, of u v] by linarith+
  have wave: "(case waveIdx width height distortion scale seed x y of (ir, ig, ib) \<Rightarrow>
            0 \<le> ir \<and> ir < int (width * height * 4)
          \<and> 0 \<le> ig \<and> ig < int (width * height * 4)
          \<and> 0 \<le> ib \<and> ib < int (width * height * 4))"
    unfolding waveIdx_def Let_def prod.case sz
    by (intro conjI G0 G1 G2)
  have fluid: "0 \<le> fluidIdx width height distortion scale seed x y
    \<and> fluidIdx width height distortion scale seed x y + 2 < int (width * height * 4)"
    unfolding fluidIdx_def Let_def sz by (intro conjI C0)
  have glass: "0 \<le> glassIdx width height distortion scale seed x y
    \<and> glassIdx width height distortion scale seed x y + 2 < int (width * height * 4)"
    unfolding glassIdx_def Let_def sz by (intro conjI C0)
  have cl: "clampCoord (int width) xx = max 0 (min (int width - 1) xx)"
    using w by (simp add: clampCoord_eq max_def min_def)
  from wave fluid glass cl show ?thesis
    by (simp only: getIdx_def clampIdx_def reflect_eq simp_thms)
qed

lemmas ev = noise_def mulberry32_def imul_def js_xor_def js_or_def js_ushr_def toInt32_def trunc_def

theorem sampling_index_in_bounds_witness:
  "waveIdx 3 3 100 0 0 0 0 = (20, 13, 22)
   \<and> fluidIdx 3 3 100 0 7 2 2 = 24
   \<and> glassIdx 3 3 100 0 7 2 2 = 24
   \<and> getIdx 3 3 (- 1) 3 = 28
   \<and> clampIdx 3 3 (- 1) 3 = 24"
proof -
  have n1: "noise (1 / 500) (1 / 500) 7 = - (360733967 / 1073741824)"
    by (simp add: ev)
  have n2: "noise (50001 / 500) (50001 / 500) 7 = 1167569937 / 2147483648"
    by (simp add: ev)
  have n3: "noise (1 / 100) (1 / 100) (7 / 10) = - (1002161835 / 1073741824)"
    by (simp add: ev)
  have n4: "noise (10001 / 100) (10001 / 100) (7 / 10) = 91141139 / 1073741824"
    by (simp add: ev)
  have 1: "waveIdx 3 3 100 0 0 0 0 = (20, 13, 22)"
    by (simp add: waveIdx_def getIdx_def reflect_def)
  have 2: "fluidIdx 3 3 100 0 7 2 2 = 24"
    by (simp add: fluidIdx_def clampIdx_def clampCoord_def n1 n2)
  have 3: "glassIdx 3 3 100 0 7 2 2 = 24"
    by (simp add: glassIdx_def Let_def clampIdx_def clampCoord_def n3 n4)
  have 4: "getIdx 3 3 (- 1) 3 = 28"
    by (simp add: getIdx_def reflect_def)
  have 5: "clampIdx 3 3 (- 1) 3 = 24"
    by (simp add: clampIdx_def clampCoord_def)
  from 1 2 3 4 5 sampling_index_in_bounds [of 3 3 100 0 0 0 0 "- 1" 3]
    sampling_index_in_bounds [of 3 3 100 0 7 2 2 "- 1" 3]
  show ?thesis by simp
qed

subsection \<open>The Vortex remap\<close>






subsection \<open>The exposure stage\<close>

text \<open>
  Claim C4. The exposure stage issues no drawing call when \<open>exposure = 50\<close>, so the canvas
  is left as it was, whatever the host does with a call. Above 50 it fills the frame with
  white at alpha \<open>(exposure-50)/150\<close> in soft-light mode, below 50 with black at alpha
  \<open>(50-exposure)/100\<close> in multiply mode.
\<close>

theorem exposure_stage:
  "exposureStage width height 50 = []
   \<and> runOps host (exposureStage width height 50) ctx = ctx
   \<and> (50 < exposure \<longrightarrow>
        exposureStage width height exposure =
          [SetFillStyle (Flat (RGBA 255 255 255 ((exposure - 50) / 150))),
           SetComposite SoftLight,
           FillRect 0 0 (real width) (real height),
           SetComposite SourceOver])
   \<and> (exposure < 50 \<longrightarrow>
        exposureStage width height exposure =
          [SetFillStyle (Flat (RGBA 0 0 0 ((50 - exposure) / 100))),
           SetComposite Multiply,
           FillRect 0 0 (real width) (real height),
           SetComposite SourceOver])"
  by (simp add: exposureStage_def runOps_def)

theorem exposure_stage_witness:
  "runOps (\<lambda>op (n :: nat). Suc n) (exposureStage 4 2 50) 0 = 0
   \<and> exposureStage 4 2 80 =
        [SetFillStyle (Flat (RGBA 255 255 255 (1 / 5))), SetComposite SoftLight,
         FillRect 0 0 4 2, SetComposite SourceOver]
   \<and> exposureStage 4 2 20 =
        [SetFillStyle (Flat (RGBA 0 0 0 (3 / 10))), SetComposite Multiply,
         FillRect 0 0 4 2, SetComposite SourceOver]
   \<and> runOps (\<lambda>op (n :: nat). Suc n) (exposureStage 4 2 80) 0 = 4"
  using exposure_stage [of 4 2 "\<lambda>op (n :: nat). Suc n" 0 80]
    exposure_stage [of 4 2 "\<lambda>op (n :: nat). Suc n" 0 20]
  by (simp add: runOps_def)

subsection \<open>The remainder on non-negative numbers\<close>

lemma trunc_nonneg: "0 \<le> x \<Longrightarrow> trunc x = \<lfloor>x\<rfloor>"
  by (simp add: trunc_def)

lemma jsmod_range:
  assumes "0 \<le> a" and "0 < b"
  shows "0 \<le> jsmod a b \<and> jsmod a b < b"
proof -
  have q: "0 \<le> a / b" using assms by simp
  have lo: "real_of_int \<lfloor>a / b\<rfloor> \<le> a / b" by linarith
  have hi: "a / b < real_of_int \<lfloor>a / b\<rfloor> + 1" by linarith
  have ba: "b * (a / b) = a" using assms by simp
  have "b * real_of_int \<lfloor>a / b\<rfloor> \<le> b * (a / b)"
    using lo assms by (intro mult_left_mono) simp_all
  then have 1: "b * real_of_int \<lfloor>a / b\<rfloor> \<le> a"
    by (simp only: ba)
  have "b * (a / b) < b * (real_of_int \<lfloor>a / b\<rfloor> + 1)"
    using hi assms by (intro mult_strict_left_mono) simp_all
  then have 2: "a < b * real_of_int \<lfloor>a / b\<rfloor> + b"
    by (simp only: ba distrib_left mult_1_right)
  from 1 2 show ?thesis
    unfolding jsmod_def trunc_nonneg [OF q] by linarith
qed
lemma jsmod_small: "0 \<le> a \<Longrightarrow> a < b \<Longrightarrow> jsmod a b = a"
proof -
  assume a: "0 \<le> a" "a < b"
  then have "0 \<le> a / b" "a / b < 1" by simp_all
  then have "\<lfloor>a / b\<rfloor> = 0" by (simp add: floor_eq_iff)
  with \<open>0 \<le> a / b\<close> show ?thesis
    by (simp add: jsmod_def trunc_nonneg)
qed

subsection \<open>The blobs of the base field\<close>

lemma draw_unit: "mulberry32 a = (u, a') \<Longrightarrow> 0 \<le> u \<and> u < 1"
  using mulberry32_range [of a] by simp

lemma numOrbs_range: "0 \<le> u \<Longrightarrow> u < 1 \<Longrightarrow> 6 \<le> numOrbs u \<and> numOrbs u \<le> 9"
proof -
  assume "0 \<le> u" "u < 1"
  then have "0 \<le> \<lfloor>u * 4\<rfloor>" "\<lfloor>u * 4\<rfloor> < 4"
    by (simp_all add: floor_less_iff)
  then show ?thesis by (simp add: numOrbs_def)
qed

lemma length_orbDraws: "length (orbDraws n a) = n"
  by (induction n arbitrary: a) (simp_all split: prod.split)

lemma orbDraws_unit:
  "us \<in> set (orbDraws n a) \<Longrightarrow>
   (case us of (u1, u2, u3, u4) \<Rightarrow>
      0 \<le> u1 \<and> u1 < 1 \<and> 0 \<le> u2 \<and> u2 < 1 \<and> 0 \<le> u3 \<and> u3 < 1 \<and> 0 \<le> u4 \<and> u4 < 1)"
proof (induction n arbitrary: a)
  case 0
  then show ?case by simp
next
  case (Suc n)
  obtain u1 a1 where m1: "mulberry32 a = (u1, a1)" by (cases "mulberry32 a")
  obtain u2 a2 where m2: "mulberry32 a1 = (u2, a2)" by (cases "mulberry32 a1")
  obtain u3 a3 where m3: "mulberry32 a2 = (u3, a3)" by (cases "mulberry32 a2")
  obtain u4 a4 where m4: "mulberry32 a3 = (u4, a4)" by (cases "mulberry32 a3")
  from Suc.prems have "us = (u1, u2, u3, u4) \<or> us \<in> set (orbDraws n a4)"
    by (simp add: m1 m2 m3 m4)
  then show ?case
  proof
    assume "us = (u1, u2, u3, u4)"
    with draw_unit [OF m1] draw_unit [OF m2] draw_unit [OF m3] draw_unit [OF m4]
    show ?thesis by simp
  next
    assume "us \<in> set (orbDraws n a4)"
    then show ?thesis by (rule Suc.IH)
  qed
qed

lemma rng_samples_Suc4:
  "mulberry32 a = (u1, a1) \<Longrightarrow> mulberry32 a1 = (u2, a2) \<Longrightarrow>
   mulberry32 a2 = (u3, a3) \<Longrightarrow> mulberry32 a3 = (u4, a4) \<Longrightarrow>
   rng_samples (4 * Suc n) a = u1 # u2 # u3 # u4 # rng_samples (4 * n) a4"
proof -
  assume m: "mulberry32 a = (u1, a1)" "mulberry32 a1 = (u2, a2)"
    "mulberry32 a2 = (u3, a3)" "mulberry32 a3 = (u4, a4)"
  have "4 * Suc n = Suc (Suc (Suc (Suc (4 * n))))" by simp
  then show ?thesis
    by (simp only: rng_samples.simps m fst_conv snd_conv)
qed

lemma orbDraws_stream:
  "i < n \<Longrightarrow>
   orbDraws n a ! i =
     (rng_samples (4 * n) a ! (4 * i), rng_samples (4 * n) a ! (4 * i + 1),
      rng_samples (4 * n) a ! (4 * i + 2), rng_samples (4 * n) a ! (4 * i + 3))"
proof (induction n arbitrary: a i)
  case 0
  then show ?case by simp
next
  case (Suc n)
  obtain u1 a1 where m1: "mulberry32 a = (u1, a1)" by (cases "mulberry32 a")
  obtain u2 a2 where m2: "mulberry32 a1 = (u2, a2)" by (cases "mulberry32 a1")
  obtain u3 a3 where m3: "mulberry32 a2 = (u3, a3)" by (cases "mulberry32 a2")
  obtain u4 a4 where m4: "mulberry32 a3 = (u4, a4)" by (cases "mulberry32 a3")
  note S = rng_samples_Suc4 [OF m1 m2 m3 m4, of n]
  have D: "orbDraws (Suc n) a = (u1, u2, u3, u4) # orbDraws n a4"
    by (simp add: m1 m2 m3 m4)
  show ?case
  proof (cases i)
    case 0
    then show ?thesis by (simp only: S D) simp
  next
    case (Suc j)
    with Suc.prems have j: "j < n" by simp
    have sh: "(u1 # u2 # u3 # u4 # xs) ! (4 * Suc j + k) = xs ! (4 * j + k)" for k xs
      by simp
    have sh0: "(u1 # u2 # u3 # u4 # xs) ! (4 * Suc j) = xs ! (4 * j)" for xs
      by simp
    show ?thesis
      using Suc.IH [OF j, of a4]
      by (simp only: S D Suc sh sh0 nth_Cons_Suc)
  qed
qed

lemma fieldOrbDraws_length:
  "6 \<le> length (fieldOrbDraws seed) \<and> length (fieldOrbDraws seed) \<le> 9"
proof -
  obtain u0 a0 where m0: "mulberry32 seed = (u0, a0)" by (cases "mulberry32 seed")
  obtain u1 a1 where m1: "mulberry32 a0 = (u1, a1)" by (cases "mulberry32 a0")
  from draw_unit [OF m1] numOrbs_range [of u1]
  have "6 \<le> numOrbs u1 \<and> numOrbs u1 \<le> 9" by simp
  then have "6 \<le> nat (numOrbs u1) \<and> nat (numOrbs u1) \<le> 9" by linarith
  then show ?thesis
    by (simp add: fieldOrbDraws_def m0 m1 length_orbDraws)
qed

lemma fieldOrbDraws_unit:
  "us \<in> set (fieldOrbDraws seed) \<Longrightarrow>
   (case us of (u1, u2, u3, u4) \<Rightarrow>
      0 \<le> u1 \<and> u1 < 1 \<and> 0 \<le> u2 \<and> u2 < 1 \<and> 0 \<le> u3 \<and> u3 < 1 \<and> 0 \<le> u4 \<and> u4 < 1)"
  unfolding fieldOrbDraws_def
  by (auto split: prod.splits dest: orbDraws_unit)

lemma fieldOrbDraws_stream:
  fixes seed :: real
  defines "S \<equiv> rng_samples (2 + 4 * length (fieldOrbDraws seed)) seed"
  shows "fieldAngle seed = (S ! 0 * 360) * (pi / 180)"
    and "int (length (fieldOrbDraws seed)) = numOrbs (S ! 1)"
    and "i < length (fieldOrbDraws seed) \<Longrightarrow>
         fieldOrbDraws seed ! i =
           (S ! (2 + 4 * i), S ! (2 + 4 * i + 1), S ! (2 + 4 * i + 2), S ! (2 + 4 * i + 3))"
proof -
  obtain u0 a0 where m0: "mulberry32 seed = (u0, a0)" by (cases "mulberry32 seed")
  obtain u1 a1 where m1: "mulberry32 a0 = (u1, a1)" by (cases "mulberry32 a0")
  let ?n = "nat (numOrbs u1)"
  have F: "fieldOrbDraws seed = orbDraws ?n a1"
    by (simp add: fieldOrbDraws_def m0 m1)
  have len: "length (fieldOrbDraws seed) = ?n"
    by (simp only: F length_orbDraws)
  have "2 + 4 * ?n = Suc (Suc (4 * ?n))" by simp
  then have SS: "S = u0 # u1 # rng_samples (4 * ?n) a1"
    by (simp only: S_def len rng_samples.simps m0 m1 fst_conv snd_conv)
  show "fieldAngle seed = (S ! 0 * 360) * (pi / 180)"
    by (simp add: SS fieldAngle_def m0)
  have "6 \<le> numOrbs u1"
    using draw_unit [OF m1] numOrbs_range [of u1] by simp
  then show "int (length (fieldOrbDraws seed)) = numOrbs (S ! 1)"
    by (simp add: SS len)
  assume "i < length (fieldOrbDraws seed)"
  then have i: "i < ?n" by (simp only: len)
  have sh: "(u0 # u1 # xs) ! (2 + k) = xs ! k" for k xs
    by simp
  have ar: "2 + 4 * i + k = 2 + (4 * i + k)" for k by simp
  show "fieldOrbDraws seed ! i =
      (S ! (2 + 4 * i), S ! (2 + 4 * i + 1), S ! (2 + 4 * i + 2), S ! (2 + 4 * i + 3))"
    by (simp only: F SS orbDraws_stream [OF i] ar sh)
qed

lemma orbOps_unfold:
  "orbOps width height hue (u1, u2, u3, u4) =
     [SetFillStyle (RadialGradient (u1 * real width) (u2 * real height) 0
                      (u1 * real width) (u2 * real height)
                      ((0.3 + u3 * 0.5) * real (min width height))
                      [(0, HSLA (jsmod (hue + u4 * 180) 360) 100 60 0.4),
                       (1, Named ''transparent'')]),
      FillArc (u1 * real width) (u2 * real height)
        ((0.3 + u3 * 0.5) * real (min width height)) 0 (pi * 2)]"
  by (simp add: orbOps_def orbHue_def Let_def)

text \<open>
  Claim C7, as amended. The base field fills the frame with the ramp, switches to
  hard-light and draws between 6 and 9 radial blobs (\<open>6 + floor(rng()*4)\<close>), then
  switches back. The hue of each blob is \<open>(hue + u*180) % 360\<close> for a draw \<open>u\<close> in
  \<open>[0,1)\<close>: an offset in \<open>[0, 180)\<close> above the base hue. The ramp angle, the number of
  blobs and the four draws of each blob (position x, position y, radius, hue) are
  consecutive samples of the generator created from the seed.
\<close>

theorem base_field_blobs:
  "drawPsychedelicField width height hue spectra seed =
     [SetFillStyle (fieldRamp width height hue spectra (fieldAngle seed)),
      FillRect 0 0 (real width) (real height),
      SetComposite HardLight]
     @ concat (map (orbOps width height hue) (fieldOrbDraws seed))
     @ [SetComposite SourceOver]
   \<and> 6 \<le> length (fieldOrbDraws seed) \<and> length (fieldOrbDraws seed) \<le> 9
   \<and> (\<forall>us \<in> set (fieldOrbDraws seed). case us of (u1, u2, u3, u4) \<Rightarrow>
          0 \<le> u4 * 180 \<and> u4 * 180 < 180
        \<and> orbOps width height hue us =
            [SetFillStyle (RadialGradient (u1 * real width) (u2 * real height) 0
                             (u1 * real width) (u2 * real height)
                             ((0.3 + u3 * 0.5) * real (min width height))
                             [(0, HSLA (jsmod (hue + u4 * 180) 360) 100 60 0.4),
                              (1, Named ''transparent'')]),
             FillArc (u1 * real width) (u2 * real height)
               ((0.3 + u3 * 0.5) * real (min width height)) 0 (pi * 2)])
   \<and> fieldAngle seed
       = (rng_samples (2 + 4 * length (fieldOrbDraws seed)) seed ! 0 * 360) * (pi / 180)
   \<and> int (length (fieldOrbDraws seed))
       = 6 + \<lfloor>rng_samples (2 + 4 * length (fieldOrbDraws seed)) seed ! 1 * 4\<rfloor>
   \<and> (\<forall>i < length (fieldOrbDraws seed).
         fieldOrbDraws seed ! i =
           (rng_samples (2 + 4 * length (fieldOrbDraws seed)) seed ! (2 + 4 * i),
            rng_samples (2 + 4 * length (fieldOrbDraws seed)) seed ! (2 + 4 * i + 1),
            rng_samples (2 + 4 * length (fieldOrbDraws seed)) seed ! (2 + 4 * i + 2),
            rng_samples (2 + 4 * length (fieldOrbDraws seed)) seed ! (2 + 4 * i + 3)))"
proof -
  have 1: "\<forall>us \<in> set (fieldOrbDraws seed). case us of (u1, u2, u3, u4) \<Rightarrow>
          0 \<le> u4 * 180 \<and> u4 * 180 < 180
        \<and> orbOps width height hue us =
            [SetFillStyle (RadialGradient (u1 * real width) (u2 * real height) 0
                             (u1 * real width) (u2 * real height)
                             ((0.3 + u3 * 0.5) * real (min width height))
                             [(0, HSLA (jsmod (hue + u4 * 180) 360) 100 60 0.4),
                              (1, Named ''transparent'')]),
             FillArc (u1 * real width) (u2 * real height)
               ((0.3 + u3 * 0.5) * real (min width height)) 0 (pi * 2)]"
  proof
    fix us assume "us \<in> set (fieldOrbDraws seed)"
    from fieldOrbDraws_unit [OF this] show "case us of (u1, u2, u3, u4) \<Rightarrow>
          0 \<le> u4 * 180 \<and> u4 * 180 < 180
        \<and> orbOps width height hue us =
            [SetFillStyle (RadialGradient (u1 * real width) (u2 * real height) 0
                             (u1 * real width) (u2 * real height)
                             ((0.3 + u3 * 0.5) * real (min width height))
                             [(0, HSLA (jsmod (hue + u4 * 180) 360) 100 60 0.4),
                              (1, Named ''transparent'')]),
             FillArc (u1 * real width) (u2 * real height)
               ((0.3 + u3 * 0.5) * real (min width height)) 0 (pi * 2)]"
      by (cases us) (simp add: orbOps_unfold)
  qed
  have 2: "int (length (fieldOrbDraws seed))
       = 6 + \<lfloor>rng_samples (2 + 4 * length (fieldOrbDraws seed)) seed ! 1 * 4\<rfloor>"
    using fieldOrbDraws_stream(2) [of seed] by (simp only: numOrbs_def)
  from 1 2 fieldOrbDraws_length [of seed] fieldOrbDraws_stream(1) [of seed]
    fieldOrbDraws_stream(3) [of _ seed]
  show ?thesis
    by (simp only: drawPsychedelicField_def simp_thms) blast
qed

text \<open>
  Claim C7, as stated, fails: a window of \<open>\<plusminus>180\<close> degrees around the base hue 180
  contains the hue 90, and a count between 6 and 10 includes 10; no draw of the generator
  gives either.
\<close>

theorem blob_hue_window_counterexample:
  "\<not> (\<exists>u. 0 \<le> u \<and> u < 1 \<and> orbHue 180 u = 90)
   \<and> \<not> (\<exists>u. 0 \<le> u \<and> u < 1 \<and> numOrbs u = 10)"
proof -
  have "orbHue 180 u \<noteq> 90" if "0 \<le> u" "u < 1" for u
  proof -
    from that have "0 \<le> 180 + u * 180" "180 + u * 180 < 360" by simp_all
    then have "orbHue 180 u = 180 + u * 180"
      unfolding orbHue_def by (rule jsmod_small)
    with that show ?thesis by simp
  qed
  moreover have "numOrbs u \<noteq> 10" if "0 \<le> u" "u < 1" for u
    using numOrbs_range [OF that] by simp
  ultimately show ?thesis by blast
qed

lemmas mb = mulberry32_def imul_def js_xor_def js_or_def js_ushr_def toInt32_def trunc_def

theorem base_field_blobs_witness:
  "length (fieldOrbDraws 0) = 6
   \<and> fieldOrbDraws 0 ! 0 =
       (119868257 / 536870912, 156983361 / 1073741824, 501789429 / 1073741824,
        2340967985 / 4294967296)
   \<and> rng_samples (2 + 4 * length (fieldOrbDraws 0)) 0 ! (2 + 4 * 0 + 3)
       = 2340967985 / 4294967296
   \<and> orbOps 4 2 210 (fieldOrbDraws 0 ! 0) =
       [SetFillStyle (RadialGradient (119868257 / 134217728) (156983361 / 536870912) 0
                        (119868257 / 134217728) (156983361 / 536870912)
                        (3 / 5 + 501789429 / 1073741824)
                        [(0, HSLA (210 + 2340967985 / 4294967296 * 180) 100 60 0.4),
                         (1, Named ''transparent'')]),
        FillArc (119868257 / 134217728) (156983361 / 536870912)
          (3 / 5 + 501789429 / 1073741824) 0 (pi * 2)]"
proof -
  have m0: "mulberry32 0 = (572152369 / 2147483648, 1831565813)"
    by (simp add: mb)
  have m1: "mulberry32 1831565813 = (1416247 / 4294967296, 3663131626)"
    by (simp add: mb)
  have m2: "mulberry32 3663131626 = (119868257 / 536870912, 5494697439)"
    by (simp add: mb)
  have m3: "mulberry32 5494697439 = (156983361 / 1073741824, 7326263252)"
    by (simp add: mb)
  have m4: "mulberry32 7326263252 = (501789429 / 1073741824, 9157829065)"
    by (simp add: mb)
  have m5: "mulberry32 9157829065 = (2340967985 / 4294967296, 10989394878)"
    by (simp add: mb)
  have six: "(6 :: nat) = Suc 5" by simp
  have F: "fieldOrbDraws 0 = orbDraws 6 3663131626"
    by (simp add: fieldOrbDraws_def m0 m1 numOrbs_def)
  have len: "length (fieldOrbDraws 0) = 6"
    by (simp only: F length_orbDraws)
  have hd: "fieldOrbDraws 0 ! 0 =
       (119868257 / 536870912, 156983361 / 1073741824, 501789429 / 1073741824,
        2340967985 / 4294967296)"
    by (simp only: F six orbDraws.simps m2 m3 m4 m5 prod.case nth_Cons_0)
  have z: "0 < length (fieldOrbDraws 0)"
    by (simp only: len)
  note T = base_field_blobs [of 4 2 210 50 0]
  note A = T [THEN conjunct2, THEN conjunct2, THEN conjunct2, THEN conjunct2, THEN conjunct2,
      THEN conjunct2, rule_format, OF z]
  from A have s5: "rng_samples (2 + 4 * length (fieldOrbDraws 0)) 0 ! (2 + 4 * 0 + 3)
       = 2340967985 / 4294967296"
    by (simp only: hd prod.inject)
  have j: "jsmod (210 + 2340967985 / 4294967296 * 180) 360 = 210 + 2340967985 / 4294967296 * 180"
    by (rule jsmod_small) simp_all
  have ops: "orbOps 4 2 210 (fieldOrbDraws 0 ! 0) =
       [SetFillStyle (RadialGradient (119868257 / 134217728) (156983361 / 536870912) 0
                        (119868257 / 134217728) (156983361 / 536870912)
                        (3 / 5 + 501789429 / 1073741824)
                        [(0, HSLA (210 + 2340967985 / 4294967296 * 180) 100 60 0.4),
                         (1, Named ''transparent'')]),
        FillArc (119868257 / 134217728) (156983361 / 536870912)
          (3 / 5 + 501789429 / 1073741824) 0 (pi * 2)]"
    by (simp only: hd orbOps_unfold j) simp
  from len hd s5 ops show ?thesis by (intro conjI)
qed

subsection \<open>The stages of Glitch\<close>

lemma length_moshSlices: "length (moshSlices n a w h ds) = n"
  by (induction n arbitrary: a) (simp_all split: prod.split)

lemma rng_samples_Suc5:
  "mulberry32 a = (u1, a1) \<Longrightarrow> mulberry32 a1 = (u2, a2) \<Longrightarrow>
   mulberry32 a2 = (u3, a3) \<Longrightarrow> mulberry32 a3 = (u4, a4) \<Longrightarrow>
   mulberry32 a4 = (u5, a5) \<Longrightarrow>
   rng_samples (5 * Suc n) a = u1 # u2 # u3 # u4 # u5 # rng_samples (5 * n) a5"
proof -
  assume m: "mulberry32 a = (u1, a1)" "mulberry32 a1 = (u2, a2)"
    "mulberry32 a2 = (u3, a3)" "mulberry32 a3 = (u4, a4)" "mulberry32 a4 = (u5, a5)"
  have "5 * Suc n = Suc (Suc (Suc (Suc (Suc (5 * n)))))" by simp
  then show ?thesis
    by (simp only: rng_samples.simps m fst_conv snd_conv)
qed

lemma moshSlices_stream:
  "i < n \<Longrightarrow>
   moshSlices n a w h ds ! i =
     \<lparr>sl_h = 5 + rng_samples (5 * n) a ! (5 * i) * 100,
      sl_y = rng_samples (5 * n) a ! (5 * i + 1)
             * (real h - (5 + rng_samples (5 * n) a ! (5 * i) * 100)),
      sl_xOff = (rng_samples (5 * n) a ! (5 * i + 2) - 0.5) * (real w * 0.4) * (ds / 80),
      sl_black = (rng_samples (5 * n) a ! (5 * i + 3) > 0.8),
      sl_flash = (rng_samples (5 * n) a ! (5 * i + 4) > 0.9)\<rparr>"
proof (induction n arbitrary: a i)
  case 0
  then show ?case by simp
next
  case (Suc n)
  obtain u1 a1 where m1: "mulberry32 a = (u1, a1)" by (cases "mulberry32 a")
  obtain u2 a2 where m2: "mulberry32 a1 = (u2, a2)" by (cases "mulberry32 a1")
  obtain u3 a3 where m3: "mulberry32 a2 = (u3, a3)" by (cases "mulberry32 a2")
  obtain u4 a4 where m4: "mulberry32 a3 = (u4, a4)" by (cases "mulberry32 a3")
  obtain u5 a5 where m5: "mulberry32 a4 = (u5, a5)" by (cases "mulberry32 a4")
  note S = rng_samples_Suc5 [OF m1 m2 m3 m4 m5, of n]
  have D: "moshSlices (Suc n) a w h ds =
      \<lparr>sl_h = 5 + u1 * 100, sl_y = u2 * (real h - (5 + u1 * 100)),
       sl_xOff = (u3 - 0.5) * (real w * 0.4) * (ds / 80),
       sl_black = (u4 > 0.8), sl_flash = (u5 > 0.9)\<rparr> # moshSlices n a5 w h ds"
    by (simp add: m1 m2 m3 m4 m5 Let_def)
  show ?case
  proof (cases i)
    case 0
    then show ?thesis by (simp only: S D) simp
  next
    case (Suc j)
    with Suc.prems have j: "j < n" by simp
    have sh: "(u1 # u2 # u3 # u4 # u5 # xs) ! (5 * Suc j + k) = xs ! (5 * j + k)" for k xs
      by simp
    have sh0: "(u1 # u2 # u3 # u4 # u5 # xs) ! (5 * Suc j) = xs ! (5 * j)" for xs
      by simp
    show ?thesis
      using Suc.IH [OF j, of a5]
      by (simp only: S D Suc sh sh0 nth_Cons_Suc)
  qed
qed

lemma channel_guard: "(0 < \<lfloor>(ds / 100) * 40\<rfloor>) = (5 / 2 \<le> (ds :: real))"
proof -
  have "(0 < \<lfloor>(ds / 100) * 40\<rfloor>) = (1 \<le> (ds / 100) * 40)"
    by (simp add: less_floor_iff)
  also have "\<dots> = (5 / 2 \<le> ds)" by auto
  finally show ?thesis .
qed

lemma length_dataMoshSlices:
  "length (dataMoshSlices w h ds seed) = (if 5 < ds then nat (5 + \<lfloor>(ds / 100) * 30\<rfloor>) else 0)"
  by (simp add: dataMoshSlices_def Let_def length_moshSlices)

lemma slice_count_range:
  assumes "5 < ds" "ds \<le> 100"
  shows "6 \<le> nat (5 + \<lfloor>(ds / 100) * 30\<rfloor>) \<and> nat (5 + \<lfloor>(ds / 100) * 30\<rfloor>) \<le> 35"
proof -
  have "1 \<le> (ds / 100) * 30" "(ds / 100) * 30 \<le> 30" using assms by simp_all
  then have "1 \<le> \<lfloor>(ds / 100) * 30\<rfloor>" "\<lfloor>(ds / 100) * 30\<rfloor> \<le> 30"
    by (simp_all add: le_floor_iff floor_le_iff)
  then show ?thesis by linarith
qed

lemma drawSlice_count: "length (filter isDrawSlice (sliceOps w s)) = 1"
  by (simp add: sliceOps_def)

lemma drawSlice_total:
  "length (filter isDrawSlice (concat (map (sliceOps w) ss))) = length ss"
  by (induction ss) (simp_all add: drawSlice_count)

lemma channelStage_no_slice: "filter isDrawSlice (channelStage w h c) = []"
  by (simp add: channelStage_def)

text \<open>
  Claim C8, as amended. The Glitch transform runs its channel recombination exactly when
  the pixel shift \<open>floor(distortion*40/100)\<close> is positive, that is when
  \<open>distortion \<ge> 2.5\<close>. Its slice stage runs only when \<open>distortion > 5\<close> and then displaces
  \<open>5 + floor(distortion*30/100)\<close> slices, between 6 and 35 of them for a distortion up to
  100. The height, row, offset and the two flags of slice \<open>i\<close> are computed from samples
  \<open>5i\<close> to \<open>5i+4\<close> of the generator created from the seed.
\<close>

theorem glitch_stages:
  "renderDataMosh width height distortion seed =
     (if 5 / 2 \<le> distortion
      then channelStage width height \<lfloor>(distortion / 100) * 40\<rfloor> else [])
     @ concat (map (sliceOps width) (dataMoshSlices width height distortion seed))
   \<and> length (filter isDrawSlice (renderDataMosh width height distortion seed))
       = length (dataMoshSlices width height distortion seed)
   \<and> length (dataMoshSlices width height distortion seed)
       = (if 5 < distortion then nat (5 + \<lfloor>(distortion / 100) * 30\<rfloor>) else 0)
   \<and> (5 < distortion \<and> distortion \<le> 100 \<longrightarrow>
         6 \<le> length (dataMoshSlices width height distortion seed)
       \<and> length (dataMoshSlices width height distortion seed) \<le> 35)
   \<and> (\<forall>i < length (dataMoshSlices width height distortion seed).
         dataMoshSlices width height distortion seed ! i =
           (let S = rng_samples (5 * length (dataMoshSlices width height distortion seed)) seed;
                h = 5 + S ! (5 * i) * 100
            in \<lparr>sl_h = h,
                sl_y = S ! (5 * i + 1) * (real height - h),
                sl_xOff = (S ! (5 * i + 2) - 0.5) * (real width * 0.4) * (distortion / 80),
                sl_black = (S ! (5 * i + 3) > 0.8),
                sl_flash = (S ! (5 * i + 4) > 0.9)\<rparr>))"
proof -
  have 1: "renderDataMosh width height distortion seed =
     (if 5 / 2 \<le> distortion
      then channelStage width height \<lfloor>(distortion / 100) * 40\<rfloor> else [])
     @ concat (map (sliceOps width) (dataMoshSlices width height distortion seed))"
    by (simp only: renderDataMosh_def Let_def channel_guard)
  have 2: "length (filter isDrawSlice (renderDataMosh width height distortion seed))
       = length (dataMoshSlices width height distortion seed)"
    by (simp only: 1 filter_append length_append drawSlice_total channelStage_no_slice
        filter.simps list.size if_distrib [of "filter isDrawSlice"] if_cancel)
  note 3 = length_dataMoshSlices [of width height distortion seed]
  have 4: "5 < distortion \<and> distortion \<le> 100 \<longrightarrow>
         6 \<le> length (dataMoshSlices width height distortion seed)
       \<and> length (dataMoshSlices width height distortion seed) \<le> 35"
    using slice_count_range [of distortion] by (simp add: 3)
  have 5: "\<forall>i < length (dataMoshSlices width height distortion seed).
         dataMoshSlices width height distortion seed ! i =
           (let S = rng_samples (5 * length (dataMoshSlices width height distortion seed)) seed;
                h = 5 + S ! (5 * i) * 100
            in \<lparr>sl_h = h,
                sl_y = S ! (5 * i + 1) * (real height - h),
                sl_xOff = (S ! (5 * i + 2) - 0.5) * (real width * 0.4) * (distortion / 80),
                sl_black = (S ! (5 * i + 3) > 0.8),
                sl_flash = (S ! (5 * i + 4) > 0.9)\<rparr>)"
  proof (intro allI impI)
    fix i assume i: "i < length (dataMoshSlices width height distortion seed)"
    show "dataMoshSlices width height distortion seed ! i =
           (let S = rng_samples (5 * length (dataMoshSlices width height distortion seed)) seed;
                h = 5 + S ! (5 * i) * 100
            in \<lparr>sl_h = h,
                sl_y = S ! (5 * i + 1) * (real height - h),
                sl_xOff = (S ! (5 * i + 2) - 0.5) * (real width * 0.4) * (distortion / 80),
                sl_black = (S ! (5 * i + 3) > 0.8),
                sl_flash = (S ! (5 * i + 4) > 0.9)\<rparr>)"
    proof (cases "5 < distortion")
      case True
      let ?n = "nat (5 + \<lfloor>(distortion / 100) * 30\<rfloor>)"
      have D: "dataMoshSlices width height distortion seed
          = moshSlices ?n seed width height distortion"
        using True by (simp add: dataMoshSlices_def Let_def)
      have len: "length (dataMoshSlices width height distortion seed) = ?n"
        by (simp only: D length_moshSlices)
      from i have "i < ?n" by (simp only: len)
      from moshSlices_stream [OF this, of seed width height distortion] show ?thesis
        unfolding len unfolding D Let_def .
    next
      case False
      with i show ?thesis by (simp add: dataMoshSlices_def)
    qed
  qed
  from 1 2 3 4 5 show ?thesis by (intro conjI)
qed

text \<open>
  Claim C8, as stated, fails at \<open>distortion = 1\<close>: the distortion is positive, yet the
  transform issues no call at all, neither the channel recombination nor a slice.
\<close>

theorem glitch_low_distortion_counterexample:
  "(0 :: real) < 1 \<and> renderDataMosh 100 100 1 12345 = []
   \<and> length (filter isDrawSlice (renderDataMosh 100 100 1 12345)) = 0"
  by (simp add: renderDataMosh_def dataMoshSlices_def)

theorem glitch_stages_witness:
  "length (dataMoshSlices 100 100 30 12345) = 14
   \<and> length (filter isDrawSlice (renderDataMosh 100 100 30 12345)) = 14
   \<and> take 5 (renderDataMosh 100 100 30 12345) =
       [Snapshot, SetComposite Screen, SetFillStyle (Flat (Named ''black'')),
        FillRect 0 0 100 100, DrawSnapshot (- 12) 0]
   \<and> dataMoshSlices 100 100 30 12345 ! 0 =
       \<lparr>sl_h = 110566230845 / 1073741824,
        sl_y = - (16427714527721805 / 18014398509481984),
        sl_xOff = - (508778985 / 2147483648),
        sl_black = True, sl_flash = False\<rparr>"
proof -
  have m0: "mulberry32 12345 = (4207900869 / 4294967296, 1831578158)"
    by (simp add: mb)
  have m1: "mulberry32 1831578158 = (5146449 / 16777216, 3663143971)"
    by (simp add: mb)
  have m2: "mulberry32 3663143971 = (1039823225 / 2147483648, 5494709784)"
    by (simp add: mb)
  have m3: "mulberry32 5494709784 = (219562597 / 268435456, 7326275597)"
    by (simp add: mb)
  have m4: "mulberry32 7326275597 = (1093989093 / 2147483648, 9157841410)"
    by (simp add: mb)
  have n: "nat (5 + \<lfloor>((30 :: real) / 100) * 30\<rfloor>) = Suc 13"
    by simp
  have D: "dataMoshSlices 100 100 30 12345 = moshSlices (Suc 13) 12345 100 100 30"
    by (simp only: dataMoshSlices_def Let_def n) simp
  have s0: "dataMoshSlices 100 100 30 12345 ! 0 =
       \<lparr>sl_h = 110566230845 / 1073741824,
        sl_y = - (16427714527721805 / 18014398509481984),
        sl_xOff = - (508778985 / 2147483648),
        sl_black = True, sl_flash = False\<rparr>"
    by (simp only: D moshSlices.simps m0 m1 m2 m3 m4 prod.case nth_Cons_0 Let_def) simp
  note T = glitch_stages [of 100 100 30 12345]
  from T [THEN conjunct2, THEN conjunct2, THEN conjunct1]
  have len: "length (dataMoshSlices 100 100 30 12345) = 14"
    by simp
  from T [THEN conjunct2, THEN conjunct1]
  have cnt: "length (filter isDrawSlice (renderDataMosh 100 100 30 12345)) = 14"
    by (simp only: len)
  from T [THEN conjunct1] have tk: "take 5 (renderDataMosh 100 100 30 12345) =
       [Snapshot, SetComposite Screen, SetFillStyle (Flat (Named ''black'')),
        FillRect 0 0 100 100, DrawSnapshot (- 12) 0]"
    by (simp add: channelStage_def)
  from len cnt tk s0 show ?thesis by (intro conjI)
qed

subsection \<open>The hue accumulator\<close>

lemma sliceSum_nonneg: "0 \<le> sliceSum data a b"
  by (simp add: sliceSum_def)

lemma volOf_nonneg: "0 \<le> volOf data"
  by (simp add: volOf_def bassOf_def midOf_def highOf_def sliceSum_nonneg)

lemma loop_hueOffset:
  "hueOffset (fst (loop st data dpr)) =
     (if audioSync st \<and> analyser st \<and> volOf data > 0.02
      then hueOffset st + volOf data * 4 else hueOffset st)"
  by (simp add: loop_def Let_def)

lemma loop_hueOffset_mono: "hueOffset st \<le> hueOffset (fst (loop st data dpr))"
  using volOf_nonneg [of data] by (simp add: loop_hueOffset)

lemma loop_audioSync: "audioSync (fst (loop st data dpr)) = audioSync st"
  by (simp add: loop_def Let_def)

lemma loop_analyser: "analyser (fst (loop st data dpr)) = analyser st"
  by (simp add: loop_def Let_def)

lemma runFrames_snoc:
  "runFrames st (frames @ [(data, dpr)]) = fst (loop (runFrames st frames) data dpr)"
  by (simp add: runFrames_def)

lemma runFrames_mono: "hueOffset st \<le> hueOffset (runFrames st frames)"
proof (induction frames rule: rev_induct)
  case Nil
  show ?case by (simp add: runFrames_def)
next
  case (snoc f frames)
  obtain data dpr where f: "f = (data, dpr)" by (cases f)
  from snoc loop_hueOffset_mono [of "runFrames st frames" data dpr] show ?case
    by (simp only: f runFrames_snoc)
qed

lemma runFrames_prefix_mono:
  "hueOffset (runFrames st frames) \<le> hueOffset (runFrames st (frames @ later))"
proof -
  have "runFrames st (frames @ later) = runFrames (runFrames st frames) later"
    by (simp add: runFrames_def)
  then show ?thesis by (simp only: runFrames_mono)
qed

lemma runFrames_audioSync: "audioSync (runFrames st frames) = audioSync st"
proof (induction frames rule: rev_induct)
  case Nil
  show ?case by (simp add: runFrames_def)
next
  case (snoc f frames)
  obtain data dpr where f: "f = (data, dpr)" by (cases f)
  from snoc show ?case
    by (simp only: f runFrames_snoc loop_audioSync)
qed

text \<open>
  Claim C3. In a frame run while audio sync is on (and the analyser is set), the
  accumulator grows by \<open>volume * 4\<close> exactly when \<open>volume > 0.02\<close> and is unchanged
  otherwise. The volume is never negative, so the accumulator never decreases, neither in
  one frame nor over any further frames of a session; a silent frame leaves it as it is.
\<close>

theorem accumulator_tick:
  "(audioSync st \<and> analyser st \<longrightarrow>
      hueOffset (fst (loop st data dpr)) =
        (if volOf data > 0.02 then hueOffset st + volOf data * 4 else hueOffset st))
   \<and> 0 \<le> volOf data
   \<and> hueOffset st \<le> hueOffset (fst (loop st data dpr))
   \<and> hueOffset (runFrames st frames) \<le> hueOffset (runFrames st (frames @ later))
   \<and> (volOf data \<le> 0.02 \<longrightarrow> hueOffset (fst (loop st data dpr)) = hueOffset st)"
  using loop_hueOffset [of st data dpr] loop_hueOffset_mono [of st data dpr]
    runFrames_prefix_mono [of st frames later] volOf_nonneg [of data]
  by simp

theorem accumulator_tick_witness:
  "hueOffset (fst (loop (initialState\<lparr>audioSync := True, analyser := True\<rparr>)
                    (replicate 1024 128) 1)) = 512 / 255
   \<and> hueOffset (fst (loop (initialState\<lparr>audioSync := True, analyser := True,
                                         hueOffset := 512 / 255\<rparr>)
                    (replicate 1024 0) 1)) = 512 / 255"
proof -
  have loud: "volOf (replicate 1024 128) = 128 / 255"
    by (simp add: volOf_def bassOf_def midOf_def highOf_def sliceSum_def sum_list_replicate)
  have quiet: "volOf (replicate 1024 0) = 0"
    by (simp add: volOf_def bassOf_def midOf_def highOf_def sliceSum_def sum_list_replicate)
  from accumulator_tick [of "initialState\<lparr>audioSync := True, analyser := True\<rparr>"
      "replicate 1024 128" 1 "[]" "[]"]
    accumulator_tick [of "initialState\<lparr>audioSync := True, analyser := True,
      hueOffset := 512 / 255\<rparr>" "replicate 1024 0" 1 "[]" "[]"]
  show ?thesis
    by (simp add: loud quiet initialState_def)
qed

subsection \<open>Effective parameters of a frame\<close>

lemma jsmod_floor:
  "0 \<le> a \<Longrightarrow> jsmod a 360 = a - 360 * real_of_int \<lfloor>a / 360\<rfloor>"
  by (simp add: jsmod_def trunc_nonneg)

lemma loop_call:
  assumes "audioSync st" "analyser st" "systemMode st = Flux" "fluxCanvas st"
    and "activeCanvasDims st = Some (w, h)"
  shows "snd (loop st data dpr) =
     Some \<lparr>rc_width = \<lfloor>w * (if dpr = 0 then 1 else dpr)\<rfloor>,
           rc_height = \<lfloor>h * (if dpr = 0 then 1 else dpr)\<rfloor>,
           rc_hue = jsmod (fluxHue st + hueOffset (fst (loop st data dpr))) 360,
           rc_spectra = fluxSpectra st + highOf data * 100,
           rc_exposure = fluxExposure st,
           rc_distortion = fluxDistortion st + bassOf data * 80,
           rc_scale = fluxIso st + bassOf data * 50,
           rc_seed = fluxSeed st, rc_pattern = fluxPattern st,
           rc_smudgeActive = fluxSmudgeActive st,
           rc_smudgeFactor = fluxSmudgeFactor st\<rparr>"
  using assms by (simp add: loop_def Let_def)

lemma loop_state_flux:
  "systemMode st = Flux \<Longrightarrow>
   fst (loop st data dpr) = st\<lparr>hueOffset := hueOffset (fst (loop st data dpr))\<rparr>"
  by (simp add: loop_def Let_def)

text \<open>
  Claim C2. While listening in flux mode, the frame calls the renderer with distortion
  \<open>fluxDistortion + bass*80\<close>, scale \<open>fluxIso + bass*50\<close>, spectra
  \<open>fluxSpectra + high*100\<close> and hue \<open>(fluxHue + hueOffset) mod 360\<close>, the offset being the
  accumulator as updated in this frame. For a non-negative hue and accumulator the hue
  lies in \<open>[0, 360)\<close>, whatever the size of the offset. The frame changes no field of the
  state but the accumulator.
\<close>

theorem effective_parameters:
  assumes "audioSync st" and "analyser st" and "systemMode st = Flux" and "fluxCanvas st"
    and "activeCanvasDims st = Some (w, h)"
    and "0 \<le> fluxHue st" and "0 \<le> hueOffset st"
  shows "map_option rc_distortion (snd (loop st data dpr))
           = Some (fluxDistortion st + bassOf data * 80)
    \<and> map_option rc_scale (snd (loop st data dpr)) = Some (fluxIso st + bassOf data * 50)
    \<and> map_option rc_spectra (snd (loop st data dpr))
        = Some (fluxSpectra st + highOf data * 100)
    \<and> map_option rc_hue (snd (loop st data dpr))
        = Some (fluxHue st + hueOffset (fst (loop st data dpr))
                - 360 * real_of_int \<lfloor>(fluxHue st + hueOffset (fst (loop st data dpr))) / 360\<rfloor>)
    \<and> (case snd (loop st data dpr) of
          Some call \<Rightarrow> 0 \<le> rc_hue call \<and> rc_hue call < 360
        | None \<Rightarrow> False)
    \<and> fst (loop st data dpr) = st\<lparr>hueOffset := hueOffset (fst (loop st data dpr))\<rparr>"
proof -
  let ?off = "hueOffset (fst (loop st data dpr))"
  have "hueOffset st \<le> ?off" by (rule loop_hueOffset_mono)
  with assms(6,7) have nn: "0 \<le> fluxHue st + ?off" by simp
  note c = loop_call [OF assms(1-5), of data dpr]
  from jsmod_range [OF nn, of 360] have r: "0 \<le> jsmod (fluxHue st + ?off) 360"
    "jsmod (fluxHue st + ?off) 360 < 360" by simp_all
  have 1: "map_option rc_distortion (snd (loop st data dpr))
           = Some (fluxDistortion st + bassOf data * 80)"
    by (simp only: c) simp
  have 2: "map_option rc_scale (snd (loop st data dpr)) = Some (fluxIso st + bassOf data * 50)"
    by (simp only: c) simp
  have 3: "map_option rc_spectra (snd (loop st data dpr))
        = Some (fluxSpectra st + highOf data * 100)"
    by (simp only: c) simp
  have 4: "map_option rc_hue (snd (loop st data dpr))
        = Some (fluxHue st + ?off - 360 * real_of_int \<lfloor>(fluxHue st + ?off) / 360\<rfloor>)"
    using jsmod_floor [OF nn] by (simp only: c) simp
  have 5: "(case snd (loop st data dpr) of
          Some call \<Rightarrow> 0 \<le> rc_hue call \<and> rc_hue call < 360
        | None \<Rightarrow> False)"
    using r by (simp only: c) simp
  note 6 = loop_state_flux [OF assms(3), of data dpr]
  from 1 2 3 4 5 6 show ?thesis by (intro conjI)
qed

theorem effective_parameters_witness:
  "map_option rc_hue
     (snd (loop (initialState\<lparr>systemMode := Flux, activeCanvasDims := Some (800, 600),
                  audioSync := True, hueOffset := 1451 / 2, analyser := True,
                  fluxCanvas := True\<rparr>) (replicate 1024 128) 1)) = Some (110929 / 510)
   \<and> map_option rc_distortion
     (snd (loop (initialState\<lparr>systemMode := Flux, activeCanvasDims := Some (800, 600),
                  audioSync := True, hueOffset := 1451 / 2, analyser := True,
                  fluxCanvas := True\<rparr>) (replicate 1024 128) 1)) = Some (3578 / 51)
   \<and> fluxHue
     (fst (loop (initialState\<lparr>systemMode := Flux, activeCanvasDims := Some (800, 600),
                  audioSync := True, hueOffset := 1451 / 2, analyser := True,
                  fluxCanvas := True\<rparr>) (replicate 1024 128) 1)) = 210"
proof -
  let ?S = "initialState\<lparr>systemMode := Flux, activeCanvasDims := Some (800, 600),
                  audioSync := True, hueOffset := 1451 / 2, analyser := True,
                  fluxCanvas := True\<rparr>"
  have loud: "volOf (replicate 1024 128) = 128 / 255"
    by (simp add: volOf_def bassOf_def midOf_def highOf_def sliceSum_def sum_list_replicate)
  have bass: "bassOf (replicate 1024 128) = 128 / 255"
    by (simp add: bassOf_def sliceSum_def sum_list_replicate)
  have off: "hueOffset (fst (loop ?S (replicate 1024 128) 1)) = 1451 / 2 + 512 / 255"
    by (simp add: loop_hueOffset loud initialState_def)
  have h: "fluxHue (fst (loop ?S (replicate 1024 128) 1)) = 210"
    by (simp add: loop_def Let_def initialState_def)
  have a: "audioSync ?S" "analyser ?S" "systemMode ?S = Flux" "fluxCanvas ?S"
    "activeCanvasDims ?S = Some (800, 600)" "0 \<le> fluxHue ?S" "0 \<le> hueOffset ?S"
    by (simp_all add: initialState_def)
  have f: "fluxHue ?S = 210" "fluxDistortion ?S = 30"
    by (simp_all add: initialState_def)
  note T = effective_parameters [OF a, of "replicate 1024 128" 1]
  from T [THEN conjunct1] have d: "map_option rc_distortion
      (snd (loop ?S (replicate 1024 128) 1)) = Some (3578 / 51)"
    by (simp only: f bass) simp
  from T [THEN conjunct2, THEN conjunct2, THEN conjunct2, THEN conjunct1]
  have hu: "map_option rc_hue (snd (loop ?S (replicate 1024 128) 1)) = Some (110929 / 510)"
    by (simp only: f off) simp
  from hu d h show ?thesis by (intro conjI)
qed

subsection \<open>Switching audio sync off and on again\<close>

lemma toggle_off:
  assumes "audioSync st"
  shows "toggleAudioSync st g =
     (if systemMode st = Chroma
      then st\<lparr>audioSync := False,
              chromaHue := jsmod (chromaHue st + hueOffset st) 360,
              chromaHueB := jsmod (chromaHueB st + hueOffset st) 360,
              audioContext := False,
              chromaStyle := (if chromaRef st then (1, None) else chromaStyle st),
              hueOffset := 0\<rparr>
      else st\<lparr>audioSync := False,
              fluxHue := jsmod (fluxHue st + hueOffset st) 360,
              audioContext := False,
              chromaStyle := (if chromaRef st then (1, None) else chromaStyle st),
              hueOffset := 0\<rparr>)"
  using assms by (simp add: toggleAudioSync_def Let_def)

lemma toggle_on:
  "\<not> audioSync st \<Longrightarrow>
   toggleAudioSync st True = st\<lparr>audioContext := True, analyser := True, audioSync := True\<rparr>"
  by (simp add: toggleAudioSync_def)

text \<open>
  Claim C1. Calling \<open>toggleAudioSync\<close> while audio sync is on switches it off, resets the
  accumulator to 0 and sets the hue of the active mode (the flux hue, or both chroma hues)
  to \<open>(h + offset) mod 360\<close>, a value in \<open>[0, 360)\<close>. In flux mode this is the hue
  of the frame the loop rendered last, and the hue of the static render that follows:
  nothing jumps. Switching audio sync on again starts from an accumulator of 0, and a
  silent first frame shows the committed hue once more.
\<close>

theorem bake_on_disable:
  assumes "audioSync st" and "0 \<le> hueOffset st"
  shows "hueOffset (toggleAudioSync st g) = 0
    \<and> \<not> audioSync (toggleAudioSync st g)
    \<and> (systemMode st = Flux \<and> 0 \<le> fluxHue st \<and> fluxHue st < 360 \<longrightarrow>
          fluxHue (toggleAudioSync st g)
            = fluxHue st + hueOffset st
              - 360 * real_of_int \<lfloor>(fluxHue st + hueOffset st) / 360\<rfloor>
        \<and> 0 \<le> fluxHue (toggleAudioSync st g) \<and> fluxHue (toggleAudioSync st g) < 360)
    \<and> (systemMode st = Chroma \<and> 0 \<le> chromaHue st \<and> 0 \<le> chromaHueB st \<longrightarrow>
          chromaHue (toggleAudioSync st g)
            = chromaHue st + hueOffset st
              - 360 * real_of_int \<lfloor>(chromaHue st + hueOffset st) / 360\<rfloor>
        \<and> chromaHueB (toggleAudioSync st g)
            = chromaHueB st + hueOffset st
              - 360 * real_of_int \<lfloor>(chromaHueB st + hueOffset st) / 360\<rfloor>)
    \<and> (loop st0 data dpr = (st, Some call) \<longrightarrow>
          fluxHue (toggleAudioSync st g) = rc_hue call
        \<and> map_option rc_hue (renderStaticFlux (toggleAudioSync st g) dpr') = Some (rc_hue call))
    \<and> audioSync (toggleAudioSync (toggleAudioSync st g) True)
    \<and> hueOffset (toggleAudioSync (toggleAudioSync st g) True) = 0
    \<and> fluxHue (toggleAudioSync (toggleAudioSync st g) True) = fluxHue (toggleAudioSync st g)
    \<and> hueOffset (fst (loop (toggleAudioSync (toggleAudioSync st g) True) data2 dpr2))
        = (if volOf data2 > 0.02 then volOf data2 * 4 else 0)
    \<and> (systemMode st = Flux \<and> 0 \<le> fluxHue st \<and> fluxCanvas st
         \<and> activeCanvasDims st \<noteq> None \<and> volOf data2 \<le> 0.02 \<longrightarrow>
          map_option rc_hue (snd (loop (toggleAudioSync (toggleAudioSync st g) True) data2 dpr2))
            = Some (fluxHue (toggleAudioSync st g)))"
proof -
  let ?t = "toggleAudioSync st g"
  let ?r = "toggleAudioSync ?t True"
  note off = toggle_off [OF assms(1), of g]
  have 1: "hueOffset ?t = 0" by (simp add: off)
  have 2: "\<not> audioSync ?t" by (simp add: off)
  have fh: "systemMode st = Flux \<Longrightarrow> fluxHue ?t = jsmod (fluxHue st + hueOffset st) 360"
    by (simp add: off)
  have 3: "systemMode st = Flux \<and> 0 \<le> fluxHue st \<and> fluxHue st < 360 \<longrightarrow>
          fluxHue ?t = fluxHue st + hueOffset st
              - 360 * real_of_int \<lfloor>(fluxHue st + hueOffset st) / 360\<rfloor>
        \<and> 0 \<le> fluxHue ?t \<and> fluxHue ?t < 360"
  proof (intro impI)
    assume a: "systemMode st = Flux \<and> 0 \<le> fluxHue st \<and> fluxHue st < 360"
    with assms(2) have nn: "0 \<le> fluxHue st + hueOffset st" by simp
    from a have f: "fluxHue ?t = jsmod (fluxHue st + hueOffset st) 360" by (simp add: fh)
    from jsmod_range [OF nn, of 360] jsmod_floor [OF nn] show "fluxHue ?t = fluxHue st + hueOffset st
              - 360 * real_of_int \<lfloor>(fluxHue st + hueOffset st) / 360\<rfloor>
        \<and> 0 \<le> fluxHue ?t \<and> fluxHue ?t < 360"
      by (simp only: f)
  qed
  have 4: "systemMode st = Chroma \<and> 0 \<le> chromaHue st \<and> 0 \<le> chromaHueB st \<longrightarrow>
          chromaHue ?t = chromaHue st + hueOffset st
              - 360 * real_of_int \<lfloor>(chromaHue st + hueOffset st) / 360\<rfloor>
        \<and> chromaHueB ?t = chromaHueB st + hueOffset st
              - 360 * real_of_int \<lfloor>(chromaHueB st + hueOffset st) / 360\<rfloor>"
  proof (intro impI)
    assume a: "systemMode st = Chroma \<and> 0 \<le> chromaHue st \<and> 0 \<le> chromaHueB st"
    with assms(2) have nn: "0 \<le> chromaHue st + hueOffset st" "0 \<le> chromaHueB st + hueOffset st"
      by simp_all
    from a have "chromaHue ?t = jsmod (chromaHue st + hueOffset st) 360"
      "chromaHueB ?t = jsmod (chromaHueB st + hueOffset st) 360"
      by (simp_all add: off)
    then show "chromaHue ?t = chromaHue st + hueOffset st
              - 360 * real_of_int \<lfloor>(chromaHue st + hueOffset st) / 360\<rfloor>
        \<and> chromaHueB ?t = chromaHueB st + hueOffset st
              - 360 * real_of_int \<lfloor>(chromaHueB st + hueOffset st) / 360\<rfloor>"
      by (simp only: jsmod_floor [OF nn(1)] jsmod_floor [OF nn(2)])
  qed
  have 5: "loop st0 data dpr = (st, Some call) \<longrightarrow>
          fluxHue ?t = rc_hue call
        \<and> map_option rc_hue (renderStaticFlux ?t dpr') = Some (rc_hue call)"
  proof (intro impI)
    assume l: "loop st0 data dpr = (st, Some call)"
    then have c: "snd (loop st0 data dpr) = Some call" and s: "fst (loop st0 data dpr) = st"
      by simp_all
    from c have m: "systemMode st0 = Flux" "fluxCanvas st0" "audioSync st0"
      by (simp_all add: loop_def Let_def split: if_splits)
    from c m obtain w h where d: "activeCanvasDims st0 = Some (w, h)"
      by (cases "activeCanvasDims st0") (auto simp add: loop_def Let_def)
    from s loop_state_flux [OF m(1), of data dpr]
    have st: "st = st0\<lparr>hueOffset := hueOffset st\<rparr>" by simp
    from c s m d have rc: "rc_hue call = jsmod (fluxHue st0 + hueOffset st) 360"
      by (auto simp add: loop_def Let_def split: if_splits)
    have fl: "fluxHue st = fluxHue st0" "systemMode st = Flux" "fluxCanvas st"
      "activeCanvasDims st = Some (w, h)"
      using m d by (subst st, simp)+
    from fl have a: "fluxHue ?t = rc_hue call"
      by (simp add: fh rc)
    from fl have "renderStaticFlux ?t dpr' \<noteq> None"
      by (simp add: renderStaticFlux_def off Let_def)
    moreover from fl have "\<And>c. renderStaticFlux ?t dpr' = Some c \<Longrightarrow> rc_hue c = fluxHue ?t"
      by (auto simp add: renderStaticFlux_def off Let_def)
    ultimately have "map_option rc_hue (renderStaticFlux ?t dpr') = Some (fluxHue ?t)"
      by (cases "renderStaticFlux ?t dpr'") simp_all
    with a show "fluxHue ?t = rc_hue call
        \<and> map_option rc_hue (renderStaticFlux ?t dpr') = Some (rc_hue call)"
      by simp
  qed
  note on = toggle_on [OF 2]
  have 6: "audioSync ?r" by (simp add: on)
  have 7: "hueOffset ?r = 0" by (simp add: on 1)
  have 8: "fluxHue ?r = fluxHue ?t" by (simp add: on)
  have an: "analyser ?r" by (simp add: on)
  have 9: "hueOffset (fst (loop ?r data2 dpr2))
        = (if volOf data2 > 0.02 then volOf data2 * 4 else 0)"
    using 6 an 7 by (simp add: loop_hueOffset)
  have 10: "systemMode st = Flux \<and> 0 \<le> fluxHue st \<and> fluxCanvas st
         \<and> activeCanvasDims st \<noteq> None \<and> volOf data2 \<le> 0.02 \<longrightarrow>
          map_option rc_hue (snd (loop ?r data2 dpr2)) = Some (fluxHue ?t)"
  proof (intro impI)
    assume a: "systemMode st = Flux \<and> 0 \<le> fluxHue st \<and> fluxCanvas st
         \<and> activeCanvasDims st \<noteq> None \<and> volOf data2 \<le> 0.02"
    then obtain w h where d: "activeCanvasDims st = Some (w, h)" by auto
    from a assms(2) have nn: "0 \<le> fluxHue st + hueOffset st" by simp
    from a have f: "fluxHue ?t = jsmod (fluxHue st + hueOffset st) 360" by (simp add: fh)
    from jsmod_range [OF nn, of 360] have r: "0 \<le> fluxHue ?t" "fluxHue ?t < 360"
      by (simp_all only: f)
    from a d have pt: "systemMode ?t = Flux" "fluxCanvas ?t" "activeCanvasDims ?t = Some (w, h)"
      by (simp_all add: off)
    have "systemMode ?r = systemMode ?t" "fluxCanvas ?r = fluxCanvas ?t"
      "activeCanvasDims ?r = activeCanvasDims ?t"
      by (simp_all add: on)
    with pt have p: "systemMode ?r = Flux" "fluxCanvas ?r" "activeCanvasDims ?r = Some (w, h)"
      by simp_all
    from a 9 have z: "hueOffset (fst (loop ?r data2 dpr2)) = 0" by simp
    from loop_call [OF 6 an p, of data2 dpr2] jsmod_small [OF r(1), of 360] r(2)
    show "map_option rc_hue (snd (loop ?r data2 dpr2)) = Some (fluxHue ?t)"
      by (simp add: z 8)
  qed
  from 1 2 3 4 5 6 7 8 9 10 show ?thesis by (intro conjI)
qed

theorem bake_on_disable_witness:
  "fluxHue (toggleAudioSync (initialState\<lparr>systemMode := Flux, activeCanvasDims := Some (800, 600),
         audioSync := True, hueOffset := 1451 / 2, audioContext := True,
         analyser := True, fluxCanvas := True\<rparr>) True) = 431 / 2
   \<and> hueOffset (toggleAudioSync (initialState\<lparr>systemMode := Flux, activeCanvasDims := Some (800, 600),
         audioSync := True, hueOffset := 1451 / 2, audioContext := True,
         analyser := True, fluxCanvas := True\<rparr>) True) = 0
   \<and> map_option rc_hue (snd (loop (initialState\<lparr>systemMode := Flux, activeCanvasDims := Some (800, 600),
         audioSync := True, hueOffset := 1451 / 2, audioContext := True,
         analyser := True, fluxCanvas := True\<rparr>) (replicate 1024 0) 1)) = Some (431 / 2)
   \<and> map_option rc_hue (renderStaticFlux (toggleAudioSync (initialState\<lparr>systemMode := Flux, activeCanvasDims := Some (800, 600),
         audioSync := True, hueOffset := 1451 / 2, audioContext := True,
         analyser := True, fluxCanvas := True\<rparr>) True) 1) = Some (431 / 2)
   \<and> map_option rc_hue
        (snd (loop (toggleAudioSync (toggleAudioSync (initialState\<lparr>systemMode := Flux, activeCanvasDims := Some (800, 600),
         audioSync := True, hueOffset := 1451 / 2, audioContext := True,
         analyser := True, fluxCanvas := True\<rparr>) True) True) (replicate 1024 0) 1))
       = Some (431 / 2)"
proof -
  let ?S = "initialState\<lparr>systemMode := Flux, activeCanvasDims := Some (800, 600),
         audioSync := True, hueOffset := 1451 / 2, audioContext := True,
         analyser := True, fluxCanvas := True\<rparr>"
  let ?call = "\<lparr>rc_width = 800, rc_height = 600, rc_hue = 431 / 2, rc_spectra = 50,
      rc_exposure = 50, rc_distortion = 30, rc_scale = 60, rc_seed = 12345,
      rc_pattern = Wave, rc_smudgeActive = False, rc_smudgeFactor = 50\<rparr>"
  have quiet: "volOf (replicate 1024 0) = 0" "bassOf (replicate 1024 0) = 0"
    "highOf (replicate 1024 0) = 0" "midOf (replicate 1024 0) = 0"
    by (simp_all add: volOf_def bassOf_def midOf_def highOf_def sliceSum_def sum_list_replicate)
  have j: "jsmod (1871 / 2) 360 = 431 / 2"
    by (simp add: jsmod_def trunc_def)
  have L: "loop ?S (replicate 1024 0) 1 = (?S, Some ?call)"
    by (simp add: loop_def Let_def quiet initialState_def j)
  have a: "audioSync ?S" "0 \<le> hueOffset ?S"
    by (simp_all add: initialState_def)
  have f: "systemMode ?S = Flux" "fluxHue ?S = 210" "hueOffset ?S = 1451 / 2" "fluxCanvas ?S"
    "activeCanvasDims ?S \<noteq> None"
    by (simp_all add: initialState_def)
  note T = bake_on_disable [OF a, of True ?S "replicate 1024 0" 1 ?call 1 "replicate 1024 0" 1]
  from T [THEN conjunct1] have 1: "hueOffset (toggleAudioSync ?S True) = 0" .
  from T [THEN conjunct2, THEN conjunct2, THEN conjunct2, THEN conjunct2, THEN conjunct1] L
  have 2: "fluxHue (toggleAudioSync ?S True) = 431 / 2"
    and 3: "map_option rc_hue (renderStaticFlux (toggleAudioSync ?S True) 1) = Some (431 / 2)"
    by simp_all
  from L have 4: "map_option rc_hue (snd (loop ?S (replicate 1024 0) 1)) = Some (431 / 2)"
    by simp
  from T [THEN conjunct2, THEN conjunct2, THEN conjunct2, THEN conjunct2, THEN conjunct2,
      THEN conjunct2, THEN conjunct2, THEN conjunct2, THEN conjunct2] f quiet 2
  have 5: "map_option rc_hue
        (snd (loop (toggleAudioSync (toggleAudioSync ?S True) True) (replicate 1024 0) 1))
       = Some (431 / 2)"
    by simp
  from 2 1 4 3 5 show ?thesis by (intro conjI)
qed

end
